theory Spec2Isabelle
  imports Complex_Main
begin

section \<open>The starfield engine of script.js\<close>

text \<open>
  The embedding covers the starfield part of \<^verbatim>\<open>script.js\<close> (lines 5 to 83): the
  surface set-up in \<^verbatim>\<open>resize\<close>, the construction of the star pool from the three
  layers, and the frame callback \<^verbatim>\<open>draw\<close>.

  JavaScript numbers are binary64 floating-point numbers. The embedding computes with
  reals; \<open>fl\<close> below rounds a real to the nearest binary64 number, and it is applied
  where the program's result depends on the rounding: to the device pixel ratio the
  script reads and to the product that \<^verbatim>\<open>resize\<close> floors, and in \<open>advance_star64\<close>,
  the simulation step with every operation rounded, which is used to compare repeated
  steps with a single one. The step inside \<open>draw_star\<close> is written in exact arithmetic.
  \<^verbatim>\<open>NaN\<close>, the infinities and overflow are outside the model. \<^verbatim>\<open>Math.random()\<close> is a
  parameter: a function giving the result of the k-th call.
\<close>

subsection \<open>Data\<close>

text \<open>
  One object of the array \<^verbatim>\<open>stars\<close>; the fields are \<^verbatim>\<open>x, y, r, spd, hue, tw, t\<close>
  of the source, prefixed.
\<close>

record star =
  star_x :: real
  star_y :: real
  star_r :: real
  star_spd :: real
  star_hue :: string
  star_tw :: real
  star_t :: real

text \<open>One entry of \<^verbatim>\<open>layers\<close>: \<^verbatim>\<open>{ count, size: [lo, hi], speed: [lo, hi], color }\<close>.\<close>

record layer =
  layer_count :: nat
  layer_size :: "real \<times> real"
  layer_speed :: "real \<times> real"
  layer_color :: string

definition layers :: "layer list" where
  "layers =
     [\<lparr>layer_count = 80, layer_size = (1, 1.6), layer_speed = (10, 18),
       layer_color = ''rgba(154,223,255,0.55)''\<rparr>,
      \<lparr>layer_count = 60, layer_size = (1.2, 2.2), layer_speed = (18, 30),
       layer_color = ''rgba(255,243,170,0.55)''\<rparr>,
      \<lparr>layer_count = 40, layer_size = (1.6, 2.8), layer_speed = (30, 48),
       layer_color = ''rgba(177,140,255,0.55)''\<rparr>]"

text \<open>The current transformation matrix of the 2D context, \<^verbatim>\<open>(a, b, c, d, e, f)\<close>.\<close>

record xform =
  ma :: real
  mb :: real
  mc :: real
  md :: real
  me :: real
  mf :: real

text \<open>
  The module-level state: the constant \<^verbatim>\<open>dpr\<close>, the variables \<^verbatim>\<open>vw, vh, cw, ch\<close>,
  the canvas element (backing-store size and CSS size in px), the context's
  transform, the array \<^verbatim>\<open>stars\<close> and the variable \<^verbatim>\<open>last\<close>.
\<close>

record engine =
  dpr :: real
  vw :: real
  vh :: real
  cw :: int
  ch :: int
  canvas_width :: int
  canvas_height :: int
  style_width :: real
  style_height :: real
  ctm :: xform
  stars :: "star list"
  last_ts :: real

text \<open>What one frame sends to the 2D context.\<close>

datatype drawcmd =
    ClearRect real real real real
  | Vignette real real real real real real
  | Arc (arc_x: real) (arc_y: real) (arc_r: real) (arc_hue: string) (arc_alpha: real)

datatype event = Frame real | Resize real real

subsection \<open>Double-precision arithmetic\<close>

text \<open>\<open>pow2 e\<close> is \<open>2\<close> to the power \<open>e\<close>, for an integer exponent.\<close>

definition pow2 :: "int \<Rightarrow> real" where
  "pow2 e = (if 0 \<le> e then 2 ^ nat e else 1 / 2 ^ nat (- e))"

text \<open>Rounding to the nearest integer, a tie going to the even one.\<close>

definition round_even :: "real \<Rightarrow> int" where
  "round_even v =
     (let f = \<lfloor>v\<rfloor>; r = v - of_int f
      in if r < 1 / 2 then f else if 1 / 2 < r then f + 1 else if even f then f else f + 1)"

text \<open>
  The binary exponent of a non-zero real, and the spacing of the binary64 numbers
  around it: 53 significant bits, and \<open>2\<close> to the \<open>-1074\<close> in the subnormal range.
\<close>

definition expo :: "real \<Rightarrow> int" where
  "expo v = \<lfloor>log 2 \<bar>v\<bar>\<rfloor>"

definition ulp :: "real \<Rightarrow> real" where
  "ulp v = pow2 (max (expo v - 52) (- 1074))"

text \<open>
  The binary64 number nearest to \<open>v\<close>, ties to even: what an IEEE 754 operation
  returns when its exact result is \<open>v\<close> (below the overflow threshold).
\<close>

definition fl :: "real \<Rightarrow> real" where
  "fl v = (if v = 0 then 0 else of_int (round_even (v / ulp v)) * ulp v)"

subsection \<open>Surface\<close>

text \<open>
  \<^verbatim>\<open>Math.max(1, Math.min(2, window.devicePixelRatio || 1))\<close>: an undefined or zero
  ratio is falsy and is replaced by 1. The ratio the script reads is a binary64
  number: \<open>fl v\<close> for a host whose ratio is \<open>v\<close>.
\<close>

definition dpr_of :: "real option \<Rightarrow> real" where
  "dpr_of d =
     max 1 (min 2 (case d of None \<Rightarrow> 1 | Some v \<Rightarrow> if fl v = 0 then 1 else fl v))"

definition ctx_setTransform ::
  "real \<Rightarrow> real \<Rightarrow> real \<Rightarrow> real \<Rightarrow> real \<Rightarrow> real \<Rightarrow> engine \<Rightarrow> engine" where
  "ctx_setTransform a b c d e f g =
     g\<lparr>ctm := \<lparr>ma = a, mb = b, mc = c, md = d, me = e, mf = f\<rparr>\<rparr>"

text \<open>\<^verbatim>\<open>ctx.scale(sx, sy)\<close> multiplies the current matrix by a scaling from the right.\<close>

definition ctx_scale :: "real \<Rightarrow> real \<Rightarrow> engine \<Rightarrow> engine" where
  "ctx_scale sx sy g =
     g\<lparr>ctm := (ctm g)\<lparr>ma := ma (ctm g) * sx, mb := mb (ctm g) * sx,
                       mc := mc (ctm g) * sy, md := md (ctm g) * sy\<rparr>\<rparr>"

text \<open>Where the context puts a point given in the coordinates drawing commands use.\<close>

definition to_device :: "xform \<Rightarrow> real \<times> real \<Rightarrow> real \<times> real" where
  "to_device m p =
     (ma m * fst p + mc m * snd p + me m, mb m * fst p + md m * snd p + mf m)"

text \<open>
  \<^verbatim>\<open>resize()\<close>, with \<^verbatim>\<open>window.innerWidth\<close> and \<^verbatim>\<open>window.innerHeight\<close> as arguments.
  \<^verbatim>\<open>Math.floor\<close> is \<open>\<lfloor>_\<rfloor>\<close>, applied to the binary64 product. The CSS size \<^verbatim>\<open>vw + 'px'\<close> is kept as the number of px.
\<close>

definition resize :: "real \<Rightarrow> real \<Rightarrow> engine \<Rightarrow> engine" where
  "resize innerWidth innerHeight g =
     (let g1 = g\<lparr>vw := innerWidth\<rparr>;
          g2 = g1\<lparr>vh := innerHeight\<rparr>;
          g3 = g2\<lparr>cw := \<lfloor>fl (vw g2 * dpr g2)\<rfloor>\<rparr>;
          g4 = g3\<lparr>ch := \<lfloor>fl (vh g3 * dpr g3)\<rfloor>\<rparr>;
          g5 = g4\<lparr>canvas_width := cw g4\<rparr>;
          g6 = g5\<lparr>canvas_height := ch g5\<rparr>;
          g7 = g6\<lparr>style_width := vw g6\<rparr>;
          g8 = g7\<lparr>style_height := vh g7\<rparr>;
          g9 = ctx_setTransform 1 0 0 1 0 0 g8
      in ctx_scale (dpr g9) (dpr g9) g9)"

subsection \<open>The star pool\<close>

text \<open>\<^verbatim>\<open>rand(min, max)\<close>, with the result \<open>u\<close> of its call of \<^verbatim>\<open>Math.random()\<close>.\<close>

definition rand :: "real \<Rightarrow> real \<Rightarrow> real \<Rightarrow> real" where
  "rand u mn mx = u * (mx - mn) + mn"

text \<open>
  The object pushed at lines 38 to 46. Its six calls of \<^verbatim>\<open>rand\<close> are evaluated in
  the order of the literal; \<open>k\<close> is the number of calls made before.
\<close>

definition new_star :: "layer \<Rightarrow> real \<Rightarrow> real \<Rightarrow> (nat \<Rightarrow> real) \<Rightarrow> nat \<Rightarrow> star" where
  "new_star L W H rnd k =
     \<lparr>star_x = rand (rnd k) 0 W,
      star_y = rand (rnd (k + 1)) 0 H,
      star_r = rand (rnd (k + 2)) (fst (layer_size L)) (snd (layer_size L)),
      star_spd = rand (rnd (k + 3)) (fst (layer_speed L)) (snd (layer_speed L)),
      star_hue = layer_color L,
      star_tw = rand (rnd (k + 4)) 0.6 1.0,
      star_t = rand (rnd (k + 5)) 0 (pi * 2)\<rparr>"

text \<open>The inner loop \<^verbatim>\<open>for (let i = 0; i < layer.count; i++)\<close>, by the iterations left.\<close>

primrec build_layer :: "layer \<Rightarrow> real \<Rightarrow> real \<Rightarrow> (nat \<Rightarrow> real) \<Rightarrow> nat \<Rightarrow> nat \<Rightarrow> star list" where
  "build_layer L W H rnd k 0 = []"
| "build_layer L W H rnd k (Suc n) = new_star L W H rnd k # build_layer L W H rnd (k + 6) n"

text \<open>The outer loop \<^verbatim>\<open>for (const layer of layers)\<close>.\<close>

primrec build_stars :: "layer list \<Rightarrow> real \<Rightarrow> real \<Rightarrow> (nat \<Rightarrow> real) \<Rightarrow> nat \<Rightarrow> star list" where
  "build_stars [] W H rnd k = []"
| "build_stars (L # Ls) W H rnd k =
     build_layer L W H rnd k (layer_count L) @ build_stars Ls W H rnd (k + 6 * layer_count L)"

subsection \<open>The frame\<close>

text \<open>Line 52: \<^verbatim>\<open>Math.min(0.04, (now - last) / 1000)\<close>.\<close>

definition frame_dt :: "real \<Rightarrow> real \<Rightarrow> real" where
  "frame_dt now lst = min 0.04 ((now - lst) / 1000)"

text \<open>Lines 69 and 70: the two tests that reposition a star.\<close>

definition wrap_star :: "real \<Rightarrow> real \<Rightarrow> star \<Rightarrow> star" where
  "wrap_star W H s =
     (let s4 = (if star_x s < - 10 then s\<lparr>star_x := W + 10\<rparr> else s)
      in if star_y s4 > H + 10 then s4\<lparr>star_y := - 10\<rparr> else s4)"

text \<open>
  \<^verbatim>\<open>(v).toFixed(2)\<close> as a number: the multiple of 1/100 nearest to \<open>v\<close>, the larger
  one on a tie.
\<close>

definition toFixed2 :: "real \<Rightarrow> real" where
  "toFixed2 v = real_of_int \<lfloor>v * 100 + 1 / 2\<rfloor> / 100"

text \<open>
  The body of the loop over the stars (lines 65 to 78): the star as it is left, and
  the circle drawn. The fill style is the star's hue with its alpha channel
  \<^verbatim>\<open>0.55\<close> replaced by \<^verbatim>\<open>(0.35 + alpha * 0.35).toFixed(2)\<close>; the command keeps the
  hue and the new alpha channel as a number.
\<close>

definition draw_star :: "real \<Rightarrow> real \<Rightarrow> real \<Rightarrow> star \<Rightarrow> star \<times> drawcmd" where
  "draw_star dt W H s =
     (let s1 = s\<lparr>star_x := star_x s - star_spd s * dt * 0.6\<rparr>;
          s2 = s1\<lparr>star_y := star_y s1 + star_spd s1 * dt * 0.4\<rparr>;
          s3 = s2\<lparr>star_t := star_t s2 + dt * 4\<rparr>;
          alpha = 0.7 + sin (star_t s3) * 0.3;
          s5 = wrap_star W H s3
      in (s5, Arc (star_x s5) (star_y s5) (star_r s5) (star_hue s5)
                 (toFixed2 (0.35 + alpha * 0.35))))"

text \<open>The state part of the loop: the simulation step on one star and on the pool.\<close>

definition advance_star :: "real \<Rightarrow> real \<Rightarrow> real \<Rightarrow> star \<Rightarrow> star" where
  "advance_star dt W H s = fst (draw_star dt W H s)"

definition advance :: "real \<Rightarrow> real \<Rightarrow> real \<Rightarrow> star list \<Rightarrow> star list" where
  "advance dt W H ss = map (advance_star dt W H) ss"

text \<open>\<^verbatim>\<open>draw(now)\<close>: the state it leaves and the commands it issues, in order.\<close>

definition draw :: "real \<Rightarrow> engine \<Rightarrow> engine \<times> drawcmd list" where
  "draw now g =
     (let dt = frame_dt now (last_ts g);
          g1 = g\<lparr>last_ts := now\<rparr>;
          W = vw g1;
          H = vh g1;
          bg = [ClearRect 0 0 W H,
                Vignette (W / 2) (H / 2) (min W H * 0.1) (W / 2) (H / 2) (max W H)]
      in (g1\<lparr>stars := advance dt W H (stars g1)\<rparr>,
          bg @ map (\<lambda>s. snd (draw_star dt W H s)) (stars g1)))"

text \<open>
  The script up to line 50: \<^verbatim>\<open>dpr\<close> is computed once, \<^verbatim>\<open>resize()\<close> runs, the pool
  is built for the viewport just read, and \<^verbatim>\<open>last\<close> is \<^verbatim>\<open>performance.now()\<close>.
  A canvas element starts 300 by 150 with the identity transform; its CSS size is
  not read before \<^verbatim>\<open>resize()\<close> sets it.
\<close>

definition startup ::
  "real option \<Rightarrow> real \<Rightarrow> real \<Rightarrow> (nat \<Rightarrow> real) \<Rightarrow> real \<Rightarrow> engine" where
  "startup d innerWidth innerHeight rnd now0 =
     (let g0 = \<lparr>dpr = dpr_of d, vw = 0, vh = 0, cw = 0, ch = 0,
                canvas_width = 300, canvas_height = 150,
                style_width = 300, style_height = 150,
                ctm = \<lparr>ma = 1, mb = 0, mc = 0, md = 1, me = 0, mf = 0\<rparr>,
                stars = [], last_ts = 0\<rparr>;
          g1 = resize innerWidth innerHeight g0;
          g2 = g1\<lparr>stars := build_stars layers (vw g1) (vh g1) rnd 0\<rparr>
      in g2\<lparr>last_ts := now0\<rparr>)"

text \<open>The two callbacks the host can run, one after the other, never interleaved.\<close>

fun handle :: "event \<Rightarrow> engine \<Rightarrow> engine" where
  "handle (Frame now) g = fst (draw now g)"
| "handle (Resize w h) g = resize w h g"

definition run :: "event list \<Rightarrow> engine \<Rightarrow> engine" where
  "run evs g = fold handle evs g"

subsection \<open>The simulation step in double precision\<close>

text \<open>
  Lines 65 to 67 with every operation rounded: \<^verbatim>\<open>s.x -= s.spd * dt * 0.6\<close> is
  \<open>x := fl (x - fl (fl (spd * dt) * fl 0.6))\<close>, the literal \<^verbatim>\<open>0.6\<close> being the binary64
  number nearest to 0.6; likewise for \<open>y\<close> and the phase.
\<close>

definition drift64 :: "real \<Rightarrow> star \<Rightarrow> star" where
  "drift64 dt s =
     (let s1 = s\<lparr>star_x := fl (star_x s - fl (fl (star_spd s * dt) * fl 0.6))\<rparr>;
          s2 = s1\<lparr>star_y := fl (star_y s1 + fl (fl (star_spd s1 * dt) * fl 0.4))\<rparr>
      in s2\<lparr>star_t := fl (star_t s2 + fl (dt * 4))\<rparr>)"

text \<open>Lines 69 and 70 with the sums \<^verbatim>\<open>vw + 10\<close> and \<^verbatim>\<open>vh + 10\<close> rounded.\<close>

definition wrap64 :: "real \<Rightarrow> real \<Rightarrow> star \<Rightarrow> star" where
  "wrap64 W H s =
     (let s4 = (if star_x s < - 10 then s\<lparr>star_x := fl (W + 10)\<rparr> else s)
      in if star_y s4 > fl (H + 10) then s4\<lparr>star_y := - 10\<rparr> else s4)"

definition advance_star64 :: "real \<Rightarrow> real \<Rightarrow> real \<Rightarrow> star \<Rightarrow> star" where
  "advance_star64 dt W H s = wrap64 W H (drift64 dt s)"

subsection \<open>The specification's vocabulary\<close>

text \<open>
  Follows the spec's words: "for every star: \<^verbatim>\<open>x -= speed*dt*0.6\<close>;
  \<^verbatim>\<open>y += speed*dt*0.4\<close>; \<^verbatim>\<open>phase += dt*4\<close>", as one simultaneous update.
\<close>

definition spec_drift :: "real \<Rightarrow> star \<Rightarrow> star" where
  "spec_drift dt s =
     s\<lparr>star_x := star_x s - star_spd s * dt * 0.6,
       star_y := star_y s + star_spd s * dt * 0.4,
       star_t := star_t s + dt * 4\<rparr>"

text \<open>Follows the spec's words: \<^verbatim>\<open>clamp(v, lo, hi)\<close>.\<close>

definition spec_clamp :: "real \<Rightarrow> real \<Rightarrow> real \<Rightarrow> real" where
  "spec_clamp v lo hi = max lo (min hi v)"

text \<open>Follows the spec's words: a position "within the surface's logical bounds".\<close>

definition in_bounds :: "real \<Rightarrow> real \<Rightarrow> star \<Rightarrow> bool" where
  "in_bounds W H s = (0 \<le> star_x s \<and> star_x s \<le> W \<and> 0 \<le> star_y s \<and> star_y s \<le> H)"

text \<open>
  Follows the spec's words: the expanded bounding box
  \<^verbatim>\<open>[-10, logicalWidth+10] x [-10, logicalHeight+10]\<close>.
\<close>

definition in_box :: "real \<Rightarrow> real \<Rightarrow> star \<Rightarrow> bool" where
  "in_box W H s =
     (- 10 \<le> star_x s \<and> star_x s \<le> W + 10 \<and> - 10 \<le> star_y s \<and> star_y s \<le> H + 10)"

text \<open>
  A wrap event: one of the tests of lines 69 and 70 succeeds in the step with \<open>dt\<close>
  on \<open>s\<close>; and a wrap event in one of \<open>n\<close> successive steps.
\<close>

definition wraps64 :: "real \<Rightarrow> real \<Rightarrow> star \<Rightarrow> bool" where
  "wraps64 dt H s =
     (star_x (drift64 dt s) < - 10 \<or> star_y (drift64 dt s) > fl (H + 10))"

primrec wraps64_within :: "nat \<Rightarrow> real \<Rightarrow> real \<Rightarrow> real \<Rightarrow> star \<Rightarrow> bool" where
  "wraps64_within 0 dt W H s = False"
| "wraps64_within (Suc n) dt W H s =
     (wraps64 dt H s \<or> wraps64_within n dt W H (advance_star64 dt W H s))"

text \<open>
  How far \<open>N\<close> rounded additions of \<open>a\<close> to \<open>v\<close> can be from one rounded addition of \<open>A\<close>:
  the difference of what is added, the rounding error of each sum accumulated over
  the \<open>N\<close> steps (relative error \<open>2\<close> to the \<open>-53\<close>, absolute error \<open>2\<close> to the \<open>-1075\<close> in
  the subnormal range), and the rounding error of the single sum.
\<close>

definition rounding_bound :: "nat \<Rightarrow> real \<Rightarrow> real \<Rightarrow> real \<Rightarrow> real" where
  "rounding_bound N v a A =
     \<bar>real N * a - A\<bar>
     + ((1 + pow2 (- 53)) ^ N - 1) * (\<bar>v\<bar> + real N * \<bar>a\<bar> + pow2 (- 1022))
     + pow2 (- 53) * \<bar>v + A\<bar> + pow2 (- 1075)"

text \<open>
  A bound on the first term for the phase, when the single step is given the binary64
  product \<^verbatim>\<open>N * dt\<close>: the roundings of \<^verbatim>\<open>dt * 4\<close>, of \<^verbatim>\<open>N * dt\<close> and of its product by 4.
\<close>

definition increment_gap :: "nat \<Rightarrow> real \<Rightarrow> real" where
  "increment_gap N dt =
     (12 * pow2 (- 53) + 4 * pow2 (- 53) * pow2 (- 53)) * (real N * \<bar>dt\<bar>)
     + (real N + 5 + 4 * pow2 (- 53)) * pow2 (- 1075)"

subsection \<open>Concrete inputs\<close>

definition rnd_half :: "nat \<Rightarrow> real" where
  "rnd_half k = 1 / 2"

definition two_stars :: "star list" where
  "two_stars =
     [\<lparr>star_x = 5, star_y = 590, star_r = 1, star_spd = 48,
       star_hue = ''rgba(154,223,255,0.55)'', star_tw = 0.6, star_t = 0\<rparr>,
      \<lparr>star_x = 800, star_y = 0, star_r = 2, star_spd = 10,
       star_hue = ''rgba(177,140,255,0.55)'', star_tw = 1, star_t = 1\<rparr>]"

definition edge_stars :: "star list" where
  "edge_stars =
     [\<lparr>star_x = - 10.0001, star_y = 610.0001, star_r = 1, star_spd = 12,
       star_hue = ''rgba(154,223,255,0.55)'', star_tw = 0.7, star_t = 2\<rparr>,
      \<lparr>star_x = 400, star_y = 300, star_r = 2, star_spd = 40,
       star_hue = ''rgba(177,140,255,0.55)'', star_tw = 0.9, star_t = 3\<rparr>]"

definition mid_star :: star where
  "mid_star = \<lparr>star_x = 400, star_y = 300, star_r = 1.5, star_spd = 20,
     star_hue = ''rgba(255,243,170,0.55)'', star_tw = 0.8, star_t = 1\<rparr>"

text \<open>The binary64 numbers nearest to 0.02 (a frame of 20 ms) and to 1.4.\<close>

definition d0_02 :: real where
  "d0_02 = 5764607523034235 / 2 ^ 58"

definition d1_4 :: real where
  "d1_4 = 6305039478318694 / 2 ^ 52"

section \<open>Properties\<close>

subsection \<open>Rounding to binary64\<close>

lemma pow2_powr: "pow2 e = 2 powr (of_int e)"
proof (cases "0 \<le> e")
  case True
  then have "2 powr (of_int e) = (2::real) powr (real (nat e))" by simp
  also have "\<dots> = 2 ^ nat e" by (simp add: powr_realpow)
  finally show ?thesis using True by (simp add: pow2_def)
next
  case False
  define n where "n = nat (- e)"
  have e: "e = - int n" using False by (simp add: n_def)
  have "2 powr (of_int (- int n)) = (2::real) powr (- real n)" by simp
  also have "\<dots> = 1 / 2 ^ n" by (simp add: powr_minus powr_realpow divide_inverse)
  finally have "2 powr (of_int e) = (1::real) / 2 ^ n" unfolding e .
  moreover have "pow2 e = 1 / 2 ^ n" using False by (simp add: pow2_def n_def)
  ultimately show ?thesis by simp
qed

lemma pow2_pos: "0 < pow2 e"
  by (simp add: pow2_powr)

lemma pow2_add: "pow2 (a + b) = pow2 a * pow2 b"
  by (simp add: pow2_powr powr_add)

lemma pow2_mono: "a \<le> b \<Longrightarrow> pow2 a \<le> pow2 b"
  by (simp add: pow2_powr)

lemma expo_eq:
  assumes "pow2 e \<le> \<bar>v\<bar>" "\<bar>v\<bar> < pow2 (e + 1)"
  shows "expo v = e"
proof -
  have pos: "0 < \<bar>v\<bar>" using assms(1) pow2_pos [of e] by linarith
  have a: "of_int e \<le> log 2 \<bar>v\<bar>"
    using assms(1) pos by (simp add: pow2_powr le_log_iff)
  have b: "log 2 \<bar>v\<bar> < of_int e + 1"
    using assms(2) pos by (simp add: pow2_powr log_less_iff)
  show ?thesis unfolding expo_def using a b by linarith
qed

lemma expo_le: "v \<noteq> 0 \<Longrightarrow> pow2 (expo v) \<le> \<bar>v\<bar>"
proof -
  assume "v \<noteq> 0"
  then have pos: "0 < \<bar>v\<bar>" by simp
  have "of_int (expo v) \<le> log 2 \<bar>v\<bar>" by (simp add: expo_def)
  then show ?thesis using pos by (simp add: pow2_powr le_log_iff)
qed

lemma expo_gt: "v \<noteq> 0 \<Longrightarrow> \<bar>v\<bar> < pow2 (expo v + 1)"
proof -
  assume "v \<noteq> 0"
  then have pos: "0 < \<bar>v\<bar>" by simp
  have "log 2 \<bar>v\<bar> < of_int (expo v) + 1" unfolding expo_def by linarith
  then show ?thesis using pos by (simp add: pow2_powr log_less_iff)
qed

lemma round_even_err: "\<bar>of_int (round_even v) - v\<bar> \<le> 1 / 2"
proof -
  have "of_int \<lfloor>v\<rfloor> \<le> v" "v < of_int \<lfloor>v\<rfloor> + 1" by linarith+
  then show ?thesis by (auto simp: round_even_def Let_def)
qed

lemma round_even_of_int: "round_even (of_int k) = k"
  by (simp add: round_even_def)

lemma fl_eval:
  assumes "pow2 e \<le> \<bar>v\<bar>" "\<bar>v\<bar> < pow2 (e + 1)"
  shows "fl v = of_int (round_even (v / pow2 (max (e - 52) (- 1074)))) * pow2 (max (e - 52) (- 1074))"
proof -
  have "v \<noteq> 0" using assms(1) pow2_pos [of e] by auto
  then show ?thesis by (simp add: fl_def ulp_def expo_eq [OF assms])
qed

lemma ulp_le: 
  assumes "v \<noteq> 0"
  shows "ulp v \<le> pow2 (- 52) * \<bar>v\<bar> + pow2 (- 1074)"
proof (cases "- 1074 \<le> expo v - 52")
  case True
  then have "max (expo v - 52) (- 1074) = expo v - 52" by simp
  then have "ulp v = pow2 (expo v - 52)" by (simp only: ulp_def)
  also have "\<dots> = pow2 (- 52) * pow2 (expo v)" using pow2_add [of "- 52" "expo v"] by (simp add: algebra_simps)
  also have "\<dots> \<le> pow2 (- 52) * \<bar>v\<bar>"
    using expo_le [OF assms] pow2_pos [of "- 52"] by simp
  finally show ?thesis using pow2_pos [of "- 1074"] by linarith
next
  case False
  then have "max (expo v - 52) (- 1074) = - 1074" by simp
  then have "ulp v = pow2 (- 1074)" by (simp only: ulp_def)
  moreover have "0 \<le> pow2 (- 52) * \<bar>v\<bar>" using pow2_pos [of "- 52"] by simp
  ultimately show ?thesis by linarith
qed

lemma fl_err_ulp: "\<bar>fl v - v\<bar> \<le> ulp v / 2"
proof (cases "v = 0")
  case True
  then show ?thesis using pow2_pos by (simp add: fl_def ulp_def less_imp_le)
next
  case False
  have p: "0 < ulp v" by (simp add: ulp_def pow2_pos)
  have "fl v - v = (of_int (round_even (v / ulp v)) - v / ulp v) * ulp v"
    using False p by (simp add: fl_def algebra_simps)
  then have "\<bar>fl v - v\<bar> = \<bar>of_int (round_even (v / ulp v)) - v / ulp v\<bar> * ulp v"
    using p by (simp add: abs_mult)
  also have "\<dots> \<le> (1 / 2) * ulp v"
    using round_even_err [of "v / ulp v"] p by (intro mult_right_mono) auto
  finally show ?thesis by simp
qed

lemma fl_err: "\<bar>fl v - v\<bar> \<le> pow2 (- 53) * \<bar>v\<bar> + pow2 (- 1075)"
proof (cases "v = 0")
  case True
  then show ?thesis using pow2_pos [of "- 1075"] by (simp add: fl_def)
next
  case False
  have a: "pow2 (- 53) = pow2 (- 52) / 2" "pow2 (- 1075) = pow2 (- 1074) / 2"
    using pow2_add [of "- 52" "- 1"] pow2_add [of "- 1074" "- 1"] by (simp_all add: pow2_def)
  have "\<bar>fl v - v\<bar> \<le> ulp v / 2" by (rule fl_err_ulp)
  also have "\<dots> \<le> (pow2 (- 52) * \<bar>v\<bar> + pow2 (- 1074)) / 2"
    using ulp_le [OF False] by simp
  also have "\<dots> = pow2 (- 53) * \<bar>v\<bar> + pow2 (- 1075)"
    unfolding a by (simp add: field_simps)
  finally show ?thesis .
qed

lemma fl_eval':
  assumes "pow2 e \<le> \<bar>v\<bar>" "\<bar>v\<bar> < pow2 (e + 1)"
    and "r = of_int (round_even (v / pow2 (max (e - 52) (- 1074)))) * pow2 (max (e - 52) (- 1074))"
  shows "fl v = r"
  using fl_eval [OF assms(1,2)] assms(3) by simp

lemma pow2_nat: "pow2 (int n) = 2 ^ n"
  by (simp add: pow2_def)

lemma fl_of_int:
  assumes "\<bar>k\<bar> < 2 ^ 53"
  shows "fl (of_int k) = of_int k"
proof (cases "k = 0")
  case True
  then show ?thesis by (simp add: fl_def)
next
  case False
  let ?v = "real_of_int k"
  have nz: "?v \<noteq> 0" using False by simp
  have av: "\<bar>?v\<bar> = of_int \<bar>k\<bar>" by simp
  have "1 \<le> \<bar>k\<bar>" using False by simp
  then have one: "1 \<le> \<bar>?v\<bar>" unfolding av by simp
  have lo: "0 \<le> expo ?v"
  proof -
    have "0 \<le> log 2 \<bar>?v\<bar>" using one by simp
    then show ?thesis by (simp add: expo_def)
  qed
  have hi: "expo ?v \<le> 52"
  proof -
    have "\<bar>?v\<bar> < 2 ^ 53" unfolding av using assms by simp
    moreover have "pow2 (expo ?v) \<le> \<bar>?v\<bar>" by (rule expo_le [OF nz])
    ultimately have "pow2 (expo ?v) < pow2 53" by (simp add: pow2_def)
    then have "\<not> 53 \<le> expo ?v" using pow2_mono [of 53 "expo ?v"] by linarith
    then show ?thesis by simp
  qed
  define n where "n = nat (52 - expo ?v)"
  have u: "ulp ?v = pow2 (expo ?v - 52)"
  proof -
    have "max (expo ?v - 52) (- 1074) = expo ?v - 52" using lo by simp
    then show ?thesis by (simp only: ulp_def)
  qed
  have "pow2 (expo ?v - 52) * pow2 (int n) = pow2 0"
    using pow2_add [of "expo ?v - 52" "int n"] hi by (simp add: n_def)
  then have inv: "ulp ?v * 2 ^ n = 1" by (simp add: u pow2_nat pow2_def)
  have p: "0 < ulp ?v" by (simp add: ulp_def pow2_pos)
  have "?v / ulp ?v = ?v * 2 ^ n"
    using inv p by (simp add: field_simps)
  also have "\<dots> = of_int (k * 2 ^ n)" by simp
  finally have q: "?v / ulp ?v = of_int (k * 2 ^ n)" .
  have "fl ?v = of_int (k * 2 ^ n) * ulp ?v"
    using nz by (simp only: fl_def q round_even_of_int if_False)
  also have "\<dots> = ?v * (ulp ?v * 2 ^ n)" by (simp add: algebra_simps)
  finally show ?thesis by (simp add: inv)
qed

text \<open>
  A binary64 number, \<open>m\<close> times a power of two with at most 53 bits in \<open>m\<close>, is left as
  it is; so rounding twice is rounding once.
\<close>

lemma pow2_strict_mono: "a < b \<Longrightarrow> pow2 a < pow2 b"
  by (simp add: pow2_powr)

lemma pow2_le_iff: "pow2 a \<le> pow2 b \<longleftrightarrow> a \<le> b"
  by (simp add: pow2_powr)

lemma pow2_less_iff: "pow2 a < pow2 b \<longleftrightarrow> a < b"
  by (simp add: pow2_powr)

lemma pow2_0: "pow2 0 = 1"
  by (simp add: pow2_def)

lemma fl_int_multiple:
  assumes "v \<noteq> 0" "v / ulp v = of_int j"
  shows "fl v = v"
proof -
  have p: "0 < ulp v" by (simp add: ulp_def pow2_pos)
  have "fl v = of_int j * ulp v"
    using assms(1) by (simp only: fl_def assms(2) round_even_of_int if_False)
  also have "\<dots> = v / ulp v * ulp v" by (simp only: assms(2))
  also have "\<dots> = v" using p by simp
  finally show ?thesis .
qed

lemma fl_repr:
  assumes m: "\<bar>m\<bar> \<le> 2 ^ 53" and q: "- 1074 \<le> q"
  shows "fl (of_int m * pow2 q) = of_int m * pow2 q"
proof (cases "m = 0")
  case True
  then show ?thesis by (simp add: fl_def)
next
  case False
  let ?v = "of_int m * pow2 q"
  have nz: "?v \<noteq> 0" using False pow2_pos [of q] by simp
  have av: "\<bar>?v\<bar> = of_int \<bar>m\<bar> * pow2 q" using pow2_pos [of q] by (simp add: abs_mult)
  have p53: "pow2 53 = 2 ^ 53" by (simp add: pow2_def)
  show ?thesis
  proof (cases "\<bar>m\<bar> = 2 ^ 53")
    case True
    then have a: "\<bar>?v\<bar> = pow2 (53 + q)"
      unfolding av pow2_add p53 by simp
    have e: "expo ?v = 53 + q"
      by (rule expo_eq) (simp_all add: a pow2_le_iff pow2_less_iff)
    have u: "ulp ?v = pow2 (q + 1)"
    proof -
      have "max (expo ?v - 52) (- 1074) = q + 1" using e q by simp
      then show ?thesis by (simp only: ulp_def)
    qed
    have "pow2 (q + 1) = pow2 q * 2" using pow2_add [of q 1] by (simp add: pow2_def)
    then have "?v / ulp ?v = of_int m / 2" using pow2_pos [of q] by (simp add: u)
    moreover have "even m" 
    proof -
      have "even \<bar>m\<bar>" unfolding True by simp
      then show ?thesis by simp
    qed
    ultimately have "?v / ulp ?v = of_int (m div 2)"
      by (metis dvd_div_mult_self of_int_mult of_int_numeral nonzero_mult_div_cancel_right zero_neq_numeral)
    then show ?thesis by (rule fl_int_multiple [OF nz])
  next
    case False
    then have lt: "\<bar>m\<bar> < 2 ^ 53" using m by simp
    have "of_int \<bar>m\<bar> < (2::real) ^ 53" using lt by simp
    then have "\<bar>?v\<bar> < pow2 53 * pow2 q"
      unfolding av p53 using pow2_pos [of q] by simp
    then have "\<bar>?v\<bar> < pow2 (53 + q)" by (simp add: pow2_add)
    moreover have "pow2 (expo ?v) \<le> \<bar>?v\<bar>" by (rule expo_le [OF nz])
    ultimately have "pow2 (expo ?v) < pow2 (53 + q)" by linarith
    then have "expo ?v < 53 + q" by (simp add: pow2_less_iff)
    then have pq: "max (expo ?v - 52) (- 1074) \<le> q" using q by simp
    define p where "p = max (expo ?v - 52) (- 1074)"
    define n where "n = nat (q - p)"
    have u: "ulp ?v = pow2 p" by (simp add: ulp_def p_def)
    have "pow2 q = pow2 p * pow2 (int n)"
      using pow2_add [of p "int n"] pq by (simp add: n_def p_def)
    then have "pow2 q / pow2 p = 2 ^ n"
      using pow2_pos [of p] by (simp add: pow2_nat)
    then have "of_int m * (pow2 q / pow2 p) = of_int m * 2 ^ n" by (simp only:)
    then have "?v / pow2 p = of_int (m * 2 ^ n)" by simp
    then have "?v / ulp ?v = of_int (m * 2 ^ n)" by (simp only: u)
    then show ?thesis by (rule fl_int_multiple [OF nz])
  qed
qed

lemma round_even_bound:
  assumes "\<bar>y\<bar> < 2 ^ 53"
  shows "\<bar>round_even y\<bar> \<le> 2 ^ 53"
proof -
  have a: "\<lfloor>y\<rfloor> \<le> round_even y" "round_even y \<le> \<lfloor>y\<rfloor> + 1"
    by (auto simp: round_even_def Let_def)
  have "y < 2 ^ 53" "- (2 ^ 53) < y" using assms by (simp_all add: abs_less_iff)
  then have "\<lfloor>y\<rfloor> < 2 ^ 53" "- (2 ^ 53) \<le> \<lfloor>y\<rfloor>"
    by (simp_all add: floor_less_iff le_floor_iff less_imp_le)
  then show ?thesis using a by linarith
qed

lemma fl_idem: "fl (fl v) = fl v"
proof (cases "v = 0")
  case True
  then show ?thesis by (simp add: fl_def)
next
  case False
  define p where "p = max (expo v - 52) (- 1074)"
  have u: "ulp v = pow2 p" by (simp add: ulp_def p_def)
  have up: "0 < ulp v" by (simp add: u pow2_pos)
  have "pow2 (expo v - 52) \<le> ulp v" unfolding u p_def by (simp add: pow2_le_iff)
  moreover have "\<bar>v\<bar> < pow2 (expo v + 1)" by (rule expo_gt [OF False])
  moreover have "pow2 (expo v + 1) = 2 ^ 53 * pow2 (expo v - 52)"
  proof -
    have "53 + (expo v - 52) = expo v + 1" by simp
    then have "pow2 (expo v + 1) = pow2 53 * pow2 (expo v - 52)"
      using pow2_add [of 53 "expo v - 52"] by (simp only:)
    moreover have "pow2 53 = 2 ^ 53" by (simp add: pow2_def)
    ultimately show ?thesis by (simp only:)
  qed
  moreover have "(2::real) ^ 53 * pow2 (expo v - 52) \<le> 2 ^ 53 * ulp v"
    using \<open>pow2 (expo v - 52) \<le> ulp v\<close> by simp
  ultimately have "\<bar>v\<bar> < 2 ^ 53 * ulp v" by linarith
  then have "\<bar>v / ulp v\<bar> < 2 ^ 53" using up by (simp add: abs_divide pos_divide_less_eq)
  then have m: "\<bar>round_even (v / ulp v)\<bar> \<le> 2 ^ 53" by (rule round_even_bound)
  have q: "- 1074 \<le> p" by (simp add: p_def)
  have "fl v = of_int (round_even (v / ulp v)) * pow2 p"
    using False by (simp add: fl_def u)
  then show ?thesis using fl_repr [OF m q] by simp
qed

text \<open>
  Two products of \<^verbatim>\<open>resize\<close> with the ratio 1.4 as a binary64 number: the exact product
  \<open>1280 * d1_4\<close> is below 1792 by half a unit in the last place and rounds to 1792, and
  \<open>360 * d1_4\<close> rounds to a number below 504.
\<close>

lemma fl_1003_75: "fl (803 * 1.25) = 1003.75"
proof -
  have "fl (4015 / 4) = of_int (round_even ((4015 / 4) / pow2 (max (9 - 52) (- 1074)))) * pow2 (max (9 - 52) (- 1074))"
    by (rule fl_eval) (simp_all add: pow2_def)
  then show ?thesis by (simp add: pow2_def round_even_def)
qed

lemma fl_1280_d1_4: "fl (1280 * d1_4) = 1792"
proof -
  have "fl (1280 * d1_4) = of_int (round_even ((1280 * d1_4) / pow2 (max (10 - 52) (- 1074)))) * pow2 (max (10 - 52) (- 1074))"
    by (rule fl_eval) (simp_all add: pow2_def d1_4_def)
  then show ?thesis by (simp add: pow2_def round_even_def d1_4_def Let_def)
qed

lemma fl_1_4: "fl 1.4 = d1_4"
proof -
  have "fl 1.4 = of_int (round_even (1.4 / pow2 (max (0 - 52) (- 1074)))) * pow2 (max (0 - 52) (- 1074))"
    by (rule fl_eval) (simp_all add: pow2_def)
  then show ?thesis by (simp add: pow2_def round_even_def d1_4_def Let_def)
qed

lemma floor_360_d1_4: "\<lfloor>fl (360 * d1_4)\<rfloor> = 503"
proof -
  have "fl (360 * d1_4) = of_int (round_even ((360 * d1_4) / pow2 (max (8 - 52) (- 1074)))) * pow2 (max (8 - 52) (- 1074))"
    by (rule fl_eval) (simp_all add: pow2_def d1_4_def)
  then have v: "fl (360 * d1_4) = 8866461766385663 / 17592186044416"
    by (simp add: pow2_def round_even_def d1_4_def Let_def)
  show ?thesis unfolding v by simp
qed

subsection \<open>Rounded sums, repeated\<close>

lemma fl_err_scaled: "\<bar>fl v - v\<bar> \<le> pow2 (- 53) * (\<bar>v\<bar> + pow2 (- 1022))"
proof -
  have "pow2 (- 1075) = pow2 (- 53) * pow2 (- 1022)"
    using pow2_add [of "- 53" "- 1022"] by simp
  then show ?thesis using fl_err [of v] by (simp add: algebra_simps)
qed

lemma acc_bound:
  assumes "k \<le> N"
  shows "\<bar>((\<lambda>v. fl (v + a)) ^^ k) t - (t + real k * a)\<bar>
      \<le> ((1 + pow2 (- 53)) ^ k - 1) * (\<bar>t\<bar> + real N * \<bar>a\<bar> + pow2 (- 1022))"
  using assms
proof (induction k)
  case 0
  show ?case by simp
next
  case (Suc k)
  let ?u = "pow2 (- 53)"
  let ?M = "\<bar>t\<bar> + real N * \<bar>a\<bar> + pow2 (- 1022)"
  let ?v = "((\<lambda>v. fl (v + a)) ^^ k) t"
  let ?E = "\<bar>?v - (t + real k * a)\<bar>"
  have u0: "0 \<le> ?u" using pow2_pos [of "- 53"] by simp
  have IH: "?E \<le> ((1 + ?u) ^ k - 1) * ?M" using Suc by simp
  have kN: "real (Suc k) * \<bar>a\<bar> \<le> real N * \<bar>a\<bar>"
    using Suc.prems by (intro mult_right_mono) auto
  have "\<bar>?v + a\<bar> = \<bar>(?v - (t + real k * a)) + (t + real (Suc k) * a)\<bar>"
    by (simp add: algebra_simps)
  also have "\<dots> \<le> ?E + \<bar>t + real (Suc k) * a\<bar>" by (rule abs_triangle_ineq)
  also have "\<dots> \<le> ?E + (\<bar>t\<bar> + real (Suc k) * \<bar>a\<bar>)"
    using abs_triangle_ineq [of t "real (Suc k) * a"] by (simp add: abs_mult)
  finally have va: "\<bar>?v + a\<bar> \<le> ?E + (\<bar>t\<bar> + real N * \<bar>a\<bar>)" using kN by linarith
  have "\<bar>fl (?v + a) - (?v + a)\<bar> \<le> ?u * (\<bar>?v + a\<bar> + pow2 (- 1022))"
    by (rule fl_err_scaled)
  also have "\<dots> \<le> ?u * (?E + ?M)"
    using va u0 by (intro mult_left_mono) auto
  finally have r: "\<bar>fl (?v + a) - (?v + a)\<bar> \<le> ?u * (?E + ?M)" .
  have "\<bar>fl (?v + a) - (t + real (Suc k) * a)\<bar>
      = \<bar>(fl (?v + a) - (?v + a)) + (?v - (t + real k * a))\<bar>"
    by (simp add: algebra_simps)
  also have "\<dots> \<le> \<bar>fl (?v + a) - (?v + a)\<bar> + ?E" by (rule abs_triangle_ineq)
  also have "\<dots> \<le> ?u * (?E + ?M) + ?E" using r by simp
  also have "\<dots> = (1 + ?u) * ?E + ?u * ?M" by (simp add: algebra_simps)
  also have "\<dots> \<le> (1 + ?u) * (((1 + ?u) ^ k - 1) * ?M) + ?u * ?M"
    using IH u0 by (intro add_right_mono mult_left_mono) auto
  also have "\<dots> = ((1 + ?u) ^ Suc k - 1) * ?M" by (simp add: algebra_simps)
  finally show ?case by simp
qed

lemma acc_compare:
  "\<bar>((\<lambda>v. fl (v + a)) ^^ N) t - fl (t + A)\<bar>
     \<le> \<bar>real N * a - A\<bar>
       + ((1 + pow2 (- 53)) ^ N - 1) * (\<bar>t\<bar> + real N * \<bar>a\<bar> + pow2 (- 1022))
       + pow2 (- 53) * \<bar>t + A\<bar> + pow2 (- 1075)"
proof -
  let ?p = "((\<lambda>v. fl (v + a)) ^^ N) t"
  have 1: "\<bar>?p - (t + real N * a)\<bar>
      \<le> ((1 + pow2 (- 53)) ^ N - 1) * (\<bar>t\<bar> + real N * \<bar>a\<bar> + pow2 (- 1022))"
    by (rule acc_bound) simp
  have 2: "\<bar>fl (t + A) - (t + A)\<bar> \<le> pow2 (- 53) * \<bar>t + A\<bar> + pow2 (- 1075)"
    by (rule fl_err)
  have "\<bar>?p - fl (t + A)\<bar>
      = \<bar>(?p - (t + real N * a)) + (real N * a - A) + ((t + A) - fl (t + A))\<bar>"
    by (simp add: algebra_simps)
  also have "\<dots> \<le> \<bar>?p - (t + real N * a)\<bar> + \<bar>real N * a - A\<bar> + \<bar>(t + A) - fl (t + A)\<bar>"
    by linarith
  also have "\<bar>(t + A) - fl (t + A)\<bar> = \<bar>fl (t + A) - (t + A)\<bar>" by (rule abs_minus_commute)
  finally show ?thesis using 1 2 by linarith
qed

lemma increment_gap_bound:
  "\<bar>real N * fl (dt * 4) - fl (fl (real N * dt) * 4)\<bar> \<le> increment_gap N dt"
proof -
  let ?u = "pow2 (- 53)"
  let ?h = "pow2 (- 1075)"
  let ?n = "real N"
  define e1 where "e1 = fl (dt * 4) - dt * 4"
  define e2 where "e2 = fl (?n * dt) - ?n * dt"
  define e3 where "e3 = fl (fl (?n * dt) * 4) - fl (?n * dt) * 4"
  have u0: "0 \<le> ?u" using pow2_pos [of "- 53"] by simp
  have h0: "0 \<le> ?h" using pow2_pos [of "- 1075"] by simp
  have b1: "\<bar>e1\<bar> \<le> 4 * ?u * \<bar>dt\<bar> + ?h"
    using fl_err [of "dt * 4"] by (simp add: e1_def abs_mult algebra_simps)
  have b2: "\<bar>e2\<bar> \<le> ?u * (?n * \<bar>dt\<bar>) + ?h"
    using fl_err [of "?n * dt"] by (simp add: e2_def abs_mult algebra_simps)
  have f: "\<bar>fl (?n * dt)\<bar> \<le> ?n * \<bar>dt\<bar> + (?u * (?n * \<bar>dt\<bar>) + ?h)"
  proof -
    have "\<bar>fl (?n * dt)\<bar> = \<bar>?n * dt + e2\<bar>" by (simp add: e2_def)
    also have "\<dots> \<le> \<bar>?n * dt\<bar> + \<bar>e2\<bar>" by (rule abs_triangle_ineq)
    finally show ?thesis using b2 by (simp add: abs_mult)
  qed
  have "\<bar>e3\<bar> \<le> ?u * \<bar>fl (?n * dt) * 4\<bar> + ?h"
    unfolding e3_def by (rule fl_err)
  also have "\<dots> = 4 * (?u * \<bar>fl (?n * dt)\<bar>) + ?h" by (simp add: abs_mult)
  also have "\<dots> \<le> 4 * (?u * (?n * \<bar>dt\<bar> + (?u * (?n * \<bar>dt\<bar>) + ?h))) + ?h"
    using f u0 by (intro add_right_mono mult_left_mono) auto
  finally have b3: "\<bar>e3\<bar> \<le> 4 * (?u * (?n * \<bar>dt\<bar> + (?u * (?n * \<bar>dt\<bar>) + ?h))) + ?h" .
  have n1: "\<bar>?n * e1\<bar> \<le> ?n * (4 * ?u * \<bar>dt\<bar> + ?h)"
    using b1 by (simp add: abs_mult mult_left_mono)
  have "?n * fl (dt * 4) - fl (fl (?n * dt) * 4) = ?n * e1 - 4 * e2 - e3"
    by (simp add: e1_def e2_def e3_def algebra_simps)
  then have "\<bar>?n * fl (dt * 4) - fl (fl (?n * dt) * 4)\<bar> \<le> \<bar>?n * e1\<bar> + 4 * \<bar>e2\<bar> + \<bar>e3\<bar>"
    by linarith
  also have "\<dots> \<le> ?n * (4 * ?u * \<bar>dt\<bar> + ?h) + 4 * (?u * (?n * \<bar>dt\<bar>) + ?h)
      + (4 * (?u * (?n * \<bar>dt\<bar> + (?u * (?n * \<bar>dt\<bar>) + ?h))) + ?h)"
  proof -
    have "4 * \<bar>e2\<bar> \<le> 4 * (?u * (?n * \<bar>dt\<bar>) + ?h)" using b2 by simp
    then show ?thesis using n1 b3 by (intro add_mono)
  qed
  also have "\<dots> = increment_gap N dt"
    by (simp add: increment_gap_def algebra_simps)
  finally show ?thesis .
qed

subsection \<open>The step in double precision\<close>

lemma drift64_sel:
  "star_x (drift64 dt s) = fl (star_x s - fl (fl (star_spd s * dt) * fl 0.6))"
  "star_y (drift64 dt s) = fl (star_y s + fl (fl (star_spd s * dt) * fl 0.4))"
  "star_t (drift64 dt s) = fl (star_t s + fl (dt * 4))"
  "star_spd (drift64 dt s) = star_spd s"
  by (simp_all add: drift64_def Let_def)

lemma advance_star64_t: "star_t (advance_star64 dt W H s) = fl (star_t s + fl (dt * 4))"
  by (simp add: advance_star64_def wrap64_def drift64_def Let_def)

lemma advance_star64_spd: "star_spd (advance_star64 dt W H s) = star_spd s"
  by (simp add: advance_star64_def wrap64_def drift64_def Let_def)

lemma advance_star64_no_wrap:
  "\<not> wraps64 dt H s \<Longrightarrow> advance_star64 dt W H s = drift64 dt s"
  by (simp add: wraps64_def advance_star64_def wrap64_def Let_def)

lemma funpow_advance_star64_t:
  "star_t ((advance_star64 dt W H ^^ N) s) = ((\<lambda>v. fl (v + fl (dt * 4))) ^^ N) (star_t s)"
  by (induction N) (simp_all add: advance_star64_t)

lemma funpow_advance_star64_spd:
  "star_spd ((advance_star64 dt W H ^^ N) s) = star_spd s"
  by (induction N) (simp_all add: advance_star64_spd)

lemma funpow_advance_star64_xy:
  assumes "\<not> wraps64_within N dt W H s"
  shows "star_x ((advance_star64 dt W H ^^ N) s)
       = ((\<lambda>v. fl (v + (- fl (fl (star_spd s * dt) * fl 0.6)))) ^^ N) (star_x s)
     \<and> star_y ((advance_star64 dt W H ^^ N) s)
       = ((\<lambda>v. fl (v + fl (fl (star_spd s * dt) * fl 0.4))) ^^ N) (star_y s)"
  using assms
proof (induction N arbitrary: s)
  case 0
  show ?case by simp
next
  case (Suc N)
  define fx where "fx = (\<lambda>v. fl (v + (- fl (fl (star_spd s * dt) * fl 0.6))))"
  define fy where "fy = (\<lambda>v. fl (v + fl (fl (star_spd s * dt) * fl 0.4)))"
  have a: "advance_star64 dt W H s = drift64 dt s"
    using Suc.prems by (simp add: advance_star64_no_wrap)
  have "\<not> wraps64_within N dt W H (drift64 dt s)" using Suc.prems a by simp
  then have IH: "star_x ((advance_star64 dt W H ^^ N) (drift64 dt s))
         = (fx ^^ N) (star_x (drift64 dt s))
     \<and> star_y ((advance_star64 dt W H ^^ N) (drift64 dt s))
         = (fy ^^ N) (star_y (drift64 dt s))"
    using Suc.IH [of "drift64 dt s"] by (simp add: drift64_sel fx_def fy_def)
  have L: "(advance_star64 dt W H ^^ Suc N) s = (advance_star64 dt W H ^^ N) (drift64 dt s)"
    by (simp only: funpow_Suc_right o_apply a)
  have dx: "star_x (drift64 dt s) = fx (star_x s)" and dy: "star_y (drift64 dt s) = fy (star_y s)"
    by (simp_all add: drift64_sel fx_def fy_def)
  have Rx: "(fx ^^ Suc N) (star_x s) = (fx ^^ N) (star_x (drift64 dt s))"
    by (simp only: funpow_Suc_right o_apply dx)
  have Ry: "(fy ^^ Suc N) (star_y s) = (fy ^^ N) (star_y (drift64 dt s))"
    by (simp only: funpow_Suc_right o_apply dy)
  have "star_x ((advance_star64 dt W H ^^ Suc N) s) = (fx ^^ Suc N) (star_x s)
     \<and> star_y ((advance_star64 dt W H ^^ Suc N) s) = (fy ^^ Suc N) (star_y s)"
    by (simp only: L Rx Ry IH)
  then show ?case by (simp only: fx_def fy_def)
qed


subsection \<open>The simulation step on one star\<close>

lemma advance_star_eq:
  "advance_star dt W H s =
     wrap_star W H (s\<lparr>star_x := star_x s - star_spd s * dt * 0.6,
                      star_y := star_y s + star_spd s * dt * 0.4,
                      star_t := star_t s + dt * 4\<rparr>)"
  by (simp add: advance_star_def draw_star_def Let_def)

lemma advance_star_x:
  "star_x (advance_star dt W H s) =
     (if star_x s - star_spd s * dt * 0.6 < - 10 then W + 10
      else star_x s - star_spd s * dt * 0.6)"
  by (simp add: advance_star_eq wrap_star_def Let_def)

lemma advance_star_y:
  "star_y (advance_star dt W H s) =
     (if star_y s + star_spd s * dt * 0.4 > H + 10 then - 10
      else star_y s + star_spd s * dt * 0.4)"
  by (simp add: advance_star_eq wrap_star_def Let_def)

lemma advance_star_t: "star_t (advance_star dt W H s) = star_t s + dt * 4"
  by (simp add: advance_star_eq wrap_star_def Let_def)

lemma advance_star_fixed:
  "star_r (advance_star dt W H s) = star_r s"
  "star_spd (advance_star dt W H s) = star_spd s"
  "star_hue (advance_star dt W H s) = star_hue s"
  "star_tw (advance_star dt W H s) = star_tw s"
  by (simp_all add: advance_star_eq wrap_star_def Let_def)

lemma advance_nth: "i < length ss \<Longrightarrow> advance dt W H ss ! i = advance_star dt W H (ss ! i)"
  by (simp add: advance_def)

lemma advance_star_in_box:
  assumes "0 \<le> star_spd s" "0 \<le> dt" "in_box W H s"
  shows "in_box W H (advance_star dt W H s)"
proof -
  have p: "0 \<le> star_spd s * dt" using assms by simp
  show ?thesis
    using assms(3) p
    by (simp add: in_box_def advance_star_x advance_star_y)
qed

lemma advance_in_box:
  assumes "\<forall>s\<in>set ss. 0 \<le> star_spd s \<and> in_box W H s" "0 \<le> dt"
  shows "\<forall>s\<in>set (advance dt W H ss). 0 \<le> star_spd s \<and> in_box W H s"
  using assms by (auto simp: advance_def advance_star_fixed advance_star_in_box)

lemma fold_advance_in_box:
  assumes "\<forall>s\<in>set ss. 0 \<le> star_spd s \<and> in_box W H s" "\<forall>dt\<in>set dts. 0 \<le> dt"
  shows "\<forall>s\<in>set (fold (\<lambda>dt. advance dt W H) dts ss). 0 \<le> star_spd s \<and> in_box W H s"
  using assms
proof (induction dts arbitrary: ss)
  case Nil
  then show ?case by simp
next
  case (Cons dt dts)
  have d: "0 \<le> dt" using Cons.prems(2) by simp
  have "\<forall>s\<in>set (advance dt W H ss). 0 \<le> star_spd s \<and> in_box W H s"
    by (rule advance_in_box [OF Cons.prems(1) d])
  moreover have "\<forall>d\<in>set dts. 0 \<le> d" using Cons.prems(2) by simp
  ultimately have "\<forall>s\<in>set (fold (\<lambda>dt. advance dt W H) dts (advance dt W H ss)).
      0 \<le> star_spd s \<and> in_box W H s"
    by (rule Cons.IH)
  then show ?case by simp
qed

lemma in_bounds_in_box: "in_bounds W H s \<Longrightarrow> in_box W H s"
  by (simp add: in_bounds_def in_box_def)

subsection \<open>The pool as it is built\<close>

lemma rand_bounds:
  assumes "0 \<le> u" "u \<le> 1" "mn \<le> mx"
  shows "mn \<le> rand u mn mx \<and> rand u mn mx \<le> mx"
proof -
  have "0 \<le> u * (mx - mn)" using assms by simp
  moreover have "u * (mx - mn) \<le> 1 * (mx - mn)"
    using assms by (intro mult_right_mono) auto
  ultimately show ?thesis by (simp add: rand_def)
qed

lemma new_star_ok:
  assumes "\<forall>k. 0 \<le> rnd k \<and> rnd k \<le> 1" "0 \<le> W" "0 \<le> H"
    "0 \<le> fst (layer_speed L)" "fst (layer_speed L) \<le> snd (layer_speed L)"
  shows "0 \<le> star_spd (new_star L W H rnd k) \<and> in_bounds W H (new_star L W H rnd k)"
proof -
  have "fst (layer_speed L) \<le> star_spd (new_star L W H rnd k)"
    using rand_bounds [of "rnd (k + 3)" "fst (layer_speed L)" "snd (layer_speed L)"] assms
    by (simp add: new_star_def)
  moreover have "0 \<le> star_x (new_star L W H rnd k) \<and> star_x (new_star L W H rnd k) \<le> W"
    using rand_bounds [of "rnd k" 0 W] assms by (simp add: new_star_def)
  moreover have "0 \<le> star_y (new_star L W H rnd k) \<and> star_y (new_star L W H rnd k) \<le> H"
    using rand_bounds [of "rnd (k + 1)" 0 H] assms by (simp add: new_star_def)
  ultimately show ?thesis using assms(4) by (simp add: in_bounds_def)
qed

lemma build_layer_ok:
  assumes "\<forall>k. 0 \<le> rnd k \<and> rnd k \<le> 1" "0 \<le> W" "0 \<le> H"
    "0 \<le> fst (layer_speed L)" "fst (layer_speed L) \<le> snd (layer_speed L)"
  shows "\<forall>s\<in>set (build_layer L W H rnd k n). 0 \<le> star_spd s \<and> in_bounds W H s"
proof (induction n arbitrary: k)
  case 0
  show ?case by simp
next
  case (Suc n)
  show ?case using new_star_ok [OF assms] Suc.IH by simp
qed

lemma build_stars_ok:
  assumes "\<forall>k. 0 \<le> rnd k \<and> rnd k \<le> 1" "0 \<le> W" "0 \<le> H"
    "\<forall>L\<in>set Ls. 0 \<le> fst (layer_speed L) \<and> fst (layer_speed L) \<le> snd (layer_speed L)"
  shows "\<forall>s\<in>set (build_stars Ls W H rnd k). 0 \<le> star_spd s \<and> in_bounds W H s"
  using assms(4)
proof (induction Ls arbitrary: k)
  case Nil
  show ?case by simp
next
  case (Cons L Ls)
  have sp: "0 \<le> fst (layer_speed L)" "fst (layer_speed L) \<le> snd (layer_speed L)"
    using Cons.prems by simp_all
  have rest: "\<forall>L\<in>set Ls. 0 \<le> fst (layer_speed L) \<and> fst (layer_speed L) \<le> snd (layer_speed L)"
    using Cons.prems by simp
  have "\<forall>s\<in>set (build_layer L W H rnd k (layer_count L)). 0 \<le> star_spd s \<and> in_bounds W H s"
    by (rule build_layer_ok [OF assms(1-3) sp])
  moreover have "\<forall>s\<in>set (build_stars Ls W H rnd (k + 6 * layer_count L)).
      0 \<le> star_spd s \<and> in_bounds W H s"
    by (rule Cons.IH [OF rest])
  ultimately show ?case by auto
qed

text \<open>
  Every star of the pool the script builds has a non-negative speed and starts within
  the logical bounds, whatever \<^verbatim>\<open>Math.random()\<close> returns in \<open>[0, 1]\<close>.
\<close>

lemma pool_ok:
  assumes "\<forall>k. 0 \<le> rnd k \<and> rnd k \<le> 1" "0 \<le> W" "0 \<le> H"
  shows "\<forall>s\<in>set (build_stars layers W H rnd 0). 0 \<le> star_spd s \<and> in_bounds W H s"
  by (rule build_stars_ok [OF assms]) (simp add: layers_def)

lemma length_build_layer: "length (build_layer L W H rnd k n) = n"
  by (induction n arbitrary: k) auto

lemma length_build_stars:
  "length (build_stars Ls W H rnd k) = sum_list (map layer_count Ls)"
  by (induction Ls arbitrary: k) (auto simp: length_build_layer)

lemma layers_total: "sum_list (map layer_count layers) = 180"
  by (simp add: layers_def)

lemma length_pool: "length (build_stars layers W H rnd k) = 180"
  by (simp add: length_build_stars layers_total)

subsection \<open>Fields of the state after each operation\<close>

lemma resize_fields:
  "vw (resize w h g) = w"
  "vh (resize w h g) = h"
  "cw (resize w h g) = \<lfloor>fl (w * dpr g)\<rfloor>"
  "ch (resize w h g) = \<lfloor>fl (h * dpr g)\<rfloor>"
  "canvas_width (resize w h g) = \<lfloor>fl (w * dpr g)\<rfloor>"
  "canvas_height (resize w h g) = \<lfloor>fl (h * dpr g)\<rfloor>"
  "style_width (resize w h g) = w"
  "style_height (resize w h g) = h"
  "dpr (resize w h g) = dpr g"
  "stars (resize w h g) = stars g"
  "last_ts (resize w h g) = last_ts g"
  "ctm (resize w h g) = \<lparr>ma = dpr g, mb = 0, mc = 0, md = dpr g, me = 0, mf = 0\<rparr>"
  by (simp_all add: resize_def ctx_setTransform_def ctx_scale_def Let_def)

lemma draw_fields:
  "vw (fst (draw now g)) = vw g"
  "vh (fst (draw now g)) = vh g"
  "cw (fst (draw now g)) = cw g"
  "ch (fst (draw now g)) = ch g"
  "canvas_width (fst (draw now g)) = canvas_width g"
  "canvas_height (fst (draw now g)) = canvas_height g"
  "dpr (fst (draw now g)) = dpr g"
  "ctm (fst (draw now g)) = ctm g"
  "last_ts (fst (draw now g)) = now"
  "stars (fst (draw now g)) = advance (frame_dt now (last_ts g)) (vw g) (vh g) (stars g)"
  by (simp_all add: draw_def Let_def)

lemma startup_fields:
  "dpr (startup d w h rnd n) = dpr_of d"
  "vw (startup d w h rnd n) = w"
  "vh (startup d w h rnd n) = h"
  "cw (startup d w h rnd n) = \<lfloor>fl (w * dpr_of d)\<rfloor>"
  "ch (startup d w h rnd n) = \<lfloor>fl (h * dpr_of d)\<rfloor>"
  "canvas_width (startup d w h rnd n) = \<lfloor>fl (w * dpr_of d)\<rfloor>"
  "canvas_height (startup d w h rnd n) = \<lfloor>fl (h * dpr_of d)\<rfloor>"
  "stars (startup d w h rnd n) = build_stars layers w h rnd 0"
  "last_ts (startup d w h rnd n) = n"
  "ctm (startup d w h rnd n) = \<lparr>ma = dpr_of d, mb = 0, mc = 0, md = dpr_of d, me = 0, mf = 0\<rparr>"
  by (simp_all add: startup_def Let_def resize_fields)

lemma dpr_of_clamp:
  "dpr_of None = 1" "dpr_of (Some v) = max 1 (min 2 (fl v))" "1 \<le> dpr_of d" "dpr_of d \<le> 2"
  by (auto simp: dpr_of_def split: option.splits)

lemma handle_dpr: "dpr (handle ev g) = dpr g"
  by (cases ev) (simp_all add: draw_fields resize_fields)

lemma run_dpr: "dpr (run evs g) = dpr g"
  unfolding run_def by (induction evs arbitrary: g) (simp_all add: handle_dpr)

text \<open>
  The two products above, as \<^verbatim>\<open>resize\<close> stores them: 1792 and 503 device pixels, where
  the floors of the exact products are 1791 and 503.
\<close>

lemma resize_double_examples:
  "canvas_width (resize 1280 720 (startup (Some 1.4) 1280 720 rnd n)) = 1792
   \<and> canvas_width (resize 360 640 (startup (Some 1.4) 1280 720 rnd n)) = 503"
proof -
  have d: "dpr (startup (Some 1.4) 1280 720 rnd n) = d1_4"
  proof -
    have "1 \<le> d1_4" "d1_4 \<le> 2" by (simp_all add: d1_4_def)
    then show ?thesis unfolding startup_fields dpr_of_clamp fl_1_4 by simp
  qed
  show ?thesis unfolding resize_fields d fl_1280_d1_4 floor_360_d1_4 by simp
qed

lemma floor_fl_bounds:
  "x - (pow2 (- 53) * \<bar>x\<bar> + pow2 (- 1075)) - 1 < real_of_int \<lfloor>fl x\<rfloor>
   \<and> real_of_int \<lfloor>fl x\<rfloor> \<le> x + (pow2 (- 53) * \<bar>x\<bar> + pow2 (- 1075))"
proof -
  have "\<bar>fl x - x\<bar> \<le> pow2 (- 53) * \<bar>x\<bar> + pow2 (- 1075)" by (rule fl_err)
  moreover have "fl x - 1 < real_of_int \<lfloor>fl x\<rfloor>" "real_of_int \<lfloor>fl x\<rfloor> \<le> fl x" by linarith+
  ultimately show ?thesis by linarith
qed

lemma floor_fl_of_int: "\<bar>k\<bar> < 2 ^ 53 \<Longrightarrow> \<lfloor>fl (of_int k)\<rfloor> = k"
  by (simp add: fl_of_int)

subsection \<open>Alpha\<close>

lemma toFixed2_bounds:
  assumes "0.49 \<le> v" "v \<le> 0.70"
  shows "0.49 \<le> toFixed2 v \<and> toFixed2 v \<le> 0.70"
proof -
  have "(49::int) \<le> \<lfloor>v * 100 + 1 / 2\<rfloor>" using assms by (simp add: le_floor_iff)
  moreover have "\<lfloor>v * 100 + 1 / 2\<rfloor> \<le> (70::int)" using assms by (simp add: floor_le_iff)
  ultimately have "(49::real) \<le> real_of_int \<lfloor>v * 100 + 1 / 2\<rfloor>
      \<and> real_of_int \<lfloor>v * 100 + 1 / 2\<rfloor> \<le> 70"
    by linarith
  then show ?thesis by (simp add: toFixed2_def)
qed

lemma remap_linear:
  fixes u :: real
  assumes "- 1 \<le> u" "u \<le> 1"
  shows "0.49 \<le> 0.35 + (0.7 + u * 0.3) * 0.35 \<and> 0.35 + (0.7 + u * 0.3) * 0.35 \<le> 0.70"
  using assms by (simp add: algebra_simps)

lemma remap_bounds:
  "0.49 \<le> 0.35 + (0.7 + sin (ph::real) * 0.3) * 0.35
   \<and> 0.35 + (0.7 + sin ph * 0.3) * 0.35 \<le> 0.70"
  by (rule remap_linear) simp_all

subsection \<open>Repeated steps in exact arithmetic\<close>

text \<open>Without rounding, \<open>N\<close> steps add \<open>N * dt * 4\<close> to the phase.\<close>

lemma funpow_advance_star_t:
  "star_t ((advance_star dt W H ^^ N) s) = star_t s + real N * dt * 4"
  by (induction N) (simp_all add: advance_star_t algebra_simps)

lemma advance_star_zero: "in_box W H s \<Longrightarrow> advance_star 0 W H s = s"
  by (simp add: in_box_def advance_star_eq wrap_star_def Let_def)

subsection \<open>What no step touches\<close>

lemma advance_fixed:
  "map star_r (advance dt W H ss) = map star_r ss"
  "map star_spd (advance dt W H ss) = map star_spd ss"
  "map star_hue (advance dt W H ss) = map star_hue ss"
  "map star_tw (advance dt W H ss) = map star_tw ss"
  "length (advance dt W H ss) = length ss"
  by (simp_all add: advance_def advance_star_fixed comp_def)

lemma handle_fixed:
  "map star_r (stars (handle ev g)) = map star_r (stars g)"
  "map star_spd (stars (handle ev g)) = map star_spd (stars g)"
  "map star_hue (stars (handle ev g)) = map star_hue (stars g)"
  "map star_tw (stars (handle ev g)) = map star_tw (stars g)"
  "length (stars (handle ev g)) = length (stars g)"
  by (cases ev; simp add: draw_fields resize_fields advance_fixed)+

lemma run_fixed:
  "map star_r (stars (run evs g)) = map star_r (stars g)"
  "map star_spd (stars (run evs g)) = map star_spd (stars g)"
  "map star_hue (stars (run evs g)) = map star_hue (stars g)"
  "map star_tw (stars (run evs g)) = map star_tw (stars g)"
  "length (stars (run evs g)) = length (stars g)"
  unfolding run_def by (induction evs arbitrary: g; simp add: handle_fixed)+

lemma funpow_two: "(f ^^ 2) x = f (f x)"
  by (simp add: eval_nat_numeral)

lemma wraps64_within_two:
  "wraps64_within 2 dt W H s = (wraps64 dt H s \<or> wraps64 dt H (advance_star64 dt W H s))"
  by (simp add: eval_nat_numeral)

lemma mid_star_sel:
  "star_x mid_star = 400" "star_y mid_star = 300" "star_spd mid_star = 20" "star_t mid_star = 1"
  by (simp_all add: mid_star_def)

text \<open>\<open>d0_02\<close> is the binary64 number 0.02, and its double is the binary64 number 0.04.\<close>

lemma d0_02_nearest: "fl 0.02 = d0_02 \<and> fl 0.04 = 2 * d0_02"
proof -
  have a: "fl 0.02 = d0_02"
    by (rule fl_eval' [where e = "- 6"]) (simp_all add: pow2_def round_even_def Let_def d0_02_def)
  have b: "fl 0.04 = 2 * d0_02"
    by (rule fl_eval' [where e = "- 5"]) (simp_all add: pow2_def round_even_def Let_def d0_02_def)
  show ?thesis using a b by simp
qed

lemma fold_advance_from_bounds:
  assumes "\<forall>s\<in>set ss. 0 \<le> star_spd s \<and> in_bounds W H s"
    and "\<forall>dt\<in>set dts. 0 \<le> dt \<and> dt \<le> 0.04"
  shows "\<forall>s\<in>set (fold (\<lambda>dt. advance dt W H) dts ss). in_box W H s"
proof -
  have a: "\<forall>s\<in>set ss. 0 \<le> star_spd s \<and> in_box W H s"
    using assms(1) in_bounds_in_box by blast
  have b: "\<forall>dt\<in>set dts. 0 \<le> dt" using assms(2) by simp
  show ?thesis using fold_advance_in_box [OF a b] by simp
qed

section \<open>The claims\<close>

text \<open>
  C1. Stars that start within the logical bounds of a surface of fixed size, with a
  non-negative speed, are inside the expanded box \<open>[-10, W + 10] \<times> [-10, H + 10]\<close>
  after any number of simulation steps whose \<open>dt\<close> lies in \<open>[0, 0.04]\<close>. The stars of
  the pool built at startup are such stars, whatever \<^verbatim>\<open>Math.random()\<close> returns in
  \<open>[0, 1)\<close>: every one of them is inside the box after any number of such steps.
\<close>

theorem stars_stay_in_box:
  "((\<forall>s\<in>set ss. 0 \<le> star_spd s \<and> in_bounds W H s)
      \<and> (\<forall>dt\<in>set dts. 0 \<le> dt \<and> dt \<le> 0.04)
     \<longrightarrow> (\<forall>s\<in>set (fold (\<lambda>dt. advance dt W H) dts ss). in_box W H s))
   \<and> ((\<forall>k. 0 \<le> rnd k \<and> rnd k < 1) \<and> 0 \<le> w \<and> 0 \<le> h
      \<and> (\<forall>dt\<in>set dts. 0 \<le> dt \<and> dt \<le> 0.04)
     \<longrightarrow> (\<forall>s\<in>set (fold (\<lambda>dt. advance dt w h) dts (stars (startup d w h rnd n))).
            in_box w h s))"
proof (intro conjI impI)
  assume "(\<forall>s\<in>set ss. 0 \<le> star_spd s \<and> in_bounds W H s)
      \<and> (\<forall>dt\<in>set dts. 0 \<le> dt \<and> dt \<le> 0.04)"
  then show "\<forall>s\<in>set (fold (\<lambda>dt. advance dt W H) dts ss). in_box W H s"
    using fold_advance_from_bounds by blast
next
  assume h: "(\<forall>k. 0 \<le> rnd k \<and> rnd k < 1) \<and> 0 \<le> w \<and> 0 \<le> h
      \<and> (\<forall>dt\<in>set dts. 0 \<le> dt \<and> dt \<le> 0.04)"
  have r: "\<forall>k. 0 \<le> rnd k \<and> rnd k \<le> 1" using h by (simp add: less_imp_le)
  have w: "0 \<le> w" and hh: "0 \<le> h" using h by simp_all
  have "\<forall>s\<in>set (build_stars layers w h rnd 0). 0 \<le> star_spd s \<and> in_bounds w h s"
    by (rule pool_ok [OF r w hh])
  moreover have "\<forall>dt\<in>set dts. 0 \<le> dt \<and> dt \<le> 0.04" using h by simp
  ultimately show "\<forall>s\<in>set (fold (\<lambda>dt. advance dt w h) dts (stars (startup d w h rnd n))).
      in_box w h s"
    unfolding startup_fields by (rule fold_advance_from_bounds)
qed

theorem stars_stay_in_box_witness:
  "list_all (\<lambda>s. 0 \<le> star_spd s \<and> in_bounds 800 600 s) two_stars
   \<and> list_all (\<lambda>dt. 0 \<le> dt \<and> dt \<le> (0.04::real)) [0.04, 0.016, 0.04]
   \<and> list_all (in_box 800 600)
         (fold (\<lambda>dt. advance dt 800 600) [0.04, 0.016, 0.04] two_stars)
   \<and> (\<forall>k. 0 \<le> rnd_half k \<and> rnd_half k < 1)
   \<and> list_all (in_box 800 600)
         (fold (\<lambda>dt. advance dt 800 600) [0.04, 0.016, 0.04]
            (stars (startup (Some 2) 800 600 rnd_half 0)))"
proof -
  have a: "\<forall>s\<in>set two_stars. 0 \<le> star_spd s \<and> in_bounds 800 600 s"
    by (simp add: two_stars_def in_bounds_def)
  have b: "\<forall>dt\<in>set [0.04, 0.016, 0.04]. 0 \<le> dt \<and> dt \<le> (0.04::real)"
    by simp
  have c: "\<forall>k. 0 \<le> rnd_half k \<and> rnd_half k < 1"
    by (simp add: rnd_half_def)
  have d: "(0::real) \<le> 800 \<and> (0::real) \<le> 600" by simp
  show ?thesis
    unfolding list_all_iff
    using a b c d
      stars_stay_in_box [where ss = two_stars and W = 800 and H = 600
        and dts = "[0.04, 0.016, 0.04]" and rnd = rnd_half and w = 800 and h = 600
        and d = "Some 2" and n = 0]
    by blast
qed

text \<open>
  C2, as the code has it. The frame clock produces \<open>dt = min 0.04 ((now - last) / 1000)\<close>:
  it never exceeds 0.04, and it is the clamp to \<open>[0, 0.04]\<close> of the elapsed seconds,
  hence non-negative, whenever the timestamp is not before the stored one. The stored
  timestamp becomes the current one, and the stars are advanced by that \<open>dt\<close>.
\<close>

theorem frame_clock_upper_clamp:
  "frame_dt now lst = min 0.04 ((now - lst) / 1000)
   \<and> frame_dt now lst \<le> 0.04
   \<and> (lst \<le> now \<longrightarrow> 0 \<le> frame_dt now lst
        \<and> frame_dt now lst = spec_clamp ((now - lst) / 1000) 0 0.04)
   \<and> last_ts (fst (draw now g)) = now
   \<and> stars (fst (draw now g)) = advance (frame_dt now (last_ts g)) (vw g) (vh g) (stars g)"
  by (auto simp: frame_dt_def spec_clamp_def draw_fields)

theorem frame_clock_upper_clamp_witness:
  "(1000::real) \<le> 1016 \<and> frame_dt 1016 1000 = 0.016
   \<and> frame_dt 1016 1000 = spec_clamp ((1016 - 1000) / 1000) 0 0.04"
  using frame_clock_upper_clamp [of 1016 1000] by (simp add: spec_clamp_def)

text \<open>
  The clock has no lower clamp: a timestamp half a millisecond before the stored one
  gives a negative \<open>dt\<close>, where the clamp to \<open>[0, 0.04]\<close> is 0.
\<close>

theorem frame_clock_negative_dt:
  "frame_dt 1000 1000.5 = - 0.0005
   \<and> frame_dt 1000 1000.5 < 0
   \<and> frame_dt 1000 1000.5 \<noteq> spec_clamp ((1000 - 1000.5) / 1000) 0 0.04"
  by (simp add: frame_dt_def spec_clamp_def)

text \<open>
  C3. The step repositions a star in exactly two cases: when \<open>x\<close> after the drift is
  below \<open>-10\<close> it becomes \<open>W + 10\<close>, and when \<open>y\<close> after the drift is above \<open>H + 10\<close> it
  becomes \<open>-10\<close>; otherwise the coordinate is the drifted one. So, when the drift
  \<open>speed * dt\<close> is not reversed, a star at \<open>x = -10.0001\<close> is at exactly \<open>W + 10\<close> after
  the step, and a star at \<open>y = H + 10.0001\<close> is at exactly \<open>-10\<close>.
\<close>

theorem wrap_policy:
  assumes "i < length ss"
  shows "star_x (advance dt W H ss ! i) =
       (if star_x (ss ! i) - star_spd (ss ! i) * dt * 0.6 < - 10 then W + 10
        else star_x (ss ! i) - star_spd (ss ! i) * dt * 0.6)
   \<and> star_y (advance dt W H ss ! i) =
       (if star_y (ss ! i) + star_spd (ss ! i) * dt * 0.4 > H + 10 then - 10
        else star_y (ss ! i) + star_spd (ss ! i) * dt * 0.4)
   \<and> (star_x (ss ! i) = - 10.0001 \<and> 0 \<le> star_spd (ss ! i) * dt
        \<longrightarrow> star_x (advance dt W H ss ! i) = W + 10)
   \<and> (star_y (ss ! i) = H + 10.0001 \<and> 0 \<le> star_spd (ss ! i) * dt
        \<longrightarrow> star_y (advance dt W H ss ! i) = - 10)"
  using assms by (simp add: advance_nth advance_star_x advance_star_y)

theorem wrap_policy_witness:
  "0 < length edge_stars
   \<and> star_x (edge_stars ! 0) = - 10.0001 \<and> 0 \<le> star_spd (edge_stars ! 0) * 0.016
   \<and> star_y (edge_stars ! 0) = 600 + 10.0001
   \<and> star_x (advance 0.016 800 600 edge_stars ! 0) = 800 + 10
   \<and> star_y (advance 0.016 800 600 edge_stars ! 0) = - 10"
proof -
  have a: "0 < length edge_stars" by (simp add: edge_stars_def)
  have b: "star_x (edge_stars ! 0) = - 10.0001 \<and> 0 \<le> star_spd (edge_stars ! 0) * 0.016
      \<and> star_y (edge_stars ! 0) = 600 + 10.0001"
    by (simp add: edge_stars_def)
  show ?thesis
    using a b wrap_policy [OF a, where dt = "0.016" and W = 800 and H = 600] by simp
qed

text \<open>
  C4. In every step the update applied to a star before the wrap tests is exactly
  \<open>x := x - speed * dt * 0.6\<close>, \<open>y := y + speed * dt * 0.4\<close>, \<open>phase := phase + dt * 4\<close>:
  the step is the wrap applied to the specification's drift. The displacement is
  \<open>speed * dt\<close> times the fixed vector \<open>(-0.6, 0.4)\<close>, whatever the star's layer.
\<close>

theorem drift_update:
  "advance_star dt W H s = wrap_star W H (spec_drift dt s)
   \<and> advance dt W H ss = map (\<lambda>s. wrap_star W H (spec_drift dt s)) ss
   \<and> (star_x (spec_drift dt s) - star_x s, star_y (spec_drift dt s) - star_y s)
       = (star_spd s * dt * (- 0.6), star_spd s * dt * 0.4)
   \<and> star_t (spec_drift dt s) = star_t s + dt * 4"
  by (simp add: advance_def advance_star_eq spec_drift_def)

text \<open>
  C5. For every phase, the alpha derived in a frame, \<open>0.7 + sin phase * 0.3\<close> remapped to
  \<open>0.35 + alpha * 0.35\<close>, lies within \<open>[0.35, 0.70]\<close> (it is never below 0.49), and so
  does the alpha channel written into the fill style after \<^verbatim>\<open>toFixed(2)\<close>.
\<close>

theorem alpha_range:
  "arc_alpha (snd (draw_star dt W H s))
     = toFixed2 (0.35 + (0.7 + sin (star_t s + dt * 4) * 0.3) * 0.35)
   \<and> 0.35 \<le> 0.35 + (0.7 + sin (star_t s + dt * 4) * 0.3) * 0.35
   \<and> 0.49 \<le> 0.35 + (0.7 + sin (star_t s + dt * 4) * 0.3) * 0.35
   \<and> 0.35 + (0.7 + sin (star_t s + dt * 4) * 0.3) * 0.35 \<le> 0.70
   \<and> 0.35 \<le> arc_alpha (snd (draw_star dt W H s))
   \<and> arc_alpha (snd (draw_star dt W H s)) \<le> 0.70"
proof -
  let ?v = "0.35 + (0.7 + sin (star_t s + dt * 4) * 0.3) * 0.35"
  have e: "arc_alpha (snd (draw_star dt W H s)) = toFixed2 ?v"
    by (simp add: draw_star_def Let_def)
  have b: "0.49 \<le> ?v \<and> ?v \<le> 0.70" by (rule remap_bounds)
  have c: "0.49 \<le> toFixed2 ?v \<and> toFixed2 ?v \<le> 0.70"
    using b by (intro toFixed2_bounds) auto
  show ?thesis using e b c by simp
qed

text \<open>
  C6, as the code has it. Surface configuration, at startup and on each resize, sets
  the backing store to the floor of the logical dimension times the pixel scale, the
  product being the binary64 one, in both axes; the pixel scale is the device pixel
  ratio clamped to \<open>[1, 2]\<close>, read once at startup; and the configuration leaves a
  transform that scales by the pixel scale, so that a drawing command at the logical
  point \<open>(px, py)\<close> lands at the device point \<open>(scale * px, scale * py)\<close>.
\<close>

theorem surface_configuration_floor:
  "canvas_width (resize w h g) = \<lfloor>fl (w * dpr g)\<rfloor>
   \<and> canvas_height (resize w h g) = \<lfloor>fl (h * dpr g)\<rfloor>
   \<and> cw (resize w h g) = \<lfloor>fl (w * dpr g)\<rfloor>
   \<and> ch (resize w h g) = \<lfloor>fl (h * dpr g)\<rfloor>
   \<and> to_device (ctm (resize w h g)) (px, py) = (dpr g * px, dpr g * py)
   \<and> canvas_width (startup d w h rnd n) = \<lfloor>fl (w * dpr_of d)\<rfloor>
   \<and> canvas_height (startup d w h rnd n) = \<lfloor>fl (h * dpr_of d)\<rfloor>
   \<and> to_device (ctm (startup d w h rnd n)) (px, py) = (dpr_of d * px, dpr_of d * py)
   \<and> dpr (run evs (startup d w h rnd n)) = dpr_of d
   \<and> dpr_of None = 1 \<and> dpr_of (Some v) = max 1 (min 2 (fl v))
   \<and> 1 \<le> dpr_of d \<and> dpr_of d \<le> 2"
  by (simp add: resize_fields startup_fields run_dpr dpr_of_clamp to_device_def)

text \<open>
  The backing store is not the rounded product: with a device pixel ratio of 1.25, a
  resize to a logical width of 803 gives \<open>\<lfloor>1003.75\<rfloor> = 1003\<close> device pixels, where
  rounding to the nearest integer gives 1004. Both 1.25 and 1003.75 are binary64
  numbers.
\<close>

theorem backing_store_not_rounded:
  "canvas_width (resize 803 600 (startup (Some 1.25) 800 600 rnd_half 0)) = 1003
   \<and> round (fl (803 * dpr (startup (Some 1.25) 800 600 rnd_half 0))) = 1004
   \<and> canvas_width (resize 803 600 (startup (Some 1.25) 800 600 rnd_half 0))
       \<noteq> round (fl (803 * dpr (startup (Some 1.25) 800 600 rnd_half 0)))"
proof -
  have f: "fl 1.25 = 1.25"
    by (rule fl_eval' [where e = 0]) (simp_all add: pow2_def round_even_def Let_def)
  have d: "dpr (startup (Some 1.25) 800 600 rnd_half 0) = 1.25"
    unfolding startup_fields dpr_of_clamp f by simp
  have c: "canvas_width (resize 803 600 (startup (Some 1.25) 800 600 rnd_half 0)) = 1003"
    unfolding resize_fields d fl_1003_75 by simp
  have r: "round (fl (803 * dpr (startup (Some 1.25) 800 600 rnd_half 0))) = 1004"
    unfolding d fl_1003_75 by (simp add: round_def)
  show ?thesis unfolding c r by simp
qed

text \<open>
  C7. A resize, for one from logical \<open>(800, 600)\<close> to \<open>(1200, 900)\<close>, leaves every star
  of the pool as it was, so the stored positions, radii and speeds are unchanged, and
  keeps the clamped pixel scale. It sets the device width and height from the new
  logical width and height times that scale: to the floor of the binary64 product,
  which is the product itself whenever that is an integer, and otherwise within one
  device pixel (and the rounding of the product) of it.
\<close>

theorem resize_keeps_stars:
  "stars (resize w h g) = stars g
   \<and> stars (resize 1200 900 (resize 800 600 g)) = stars g
   \<and> map star_x (stars (resize w h g)) = map star_x (stars g)
   \<and> map star_y (stars (resize w h g)) = map star_y (stars g)
   \<and> map star_r (stars (resize w h g)) = map star_r (stars g)
   \<and> map star_spd (stars (resize w h g)) = map star_spd (stars g)
   \<and> dpr (resize w h g) = dpr g
   \<and> dpr (run evs (startup d w0 h0 rnd n)) = dpr_of d \<and> 1 \<le> dpr_of d \<and> dpr_of d \<le> 2
   \<and> cw (resize w h g) = \<lfloor>fl (w * dpr g)\<rfloor> \<and> ch (resize w h g) = \<lfloor>fl (h * dpr g)\<rfloor>
   \<and> cw (resize 1200 900 (resize 800 600 g)) = \<lfloor>fl (1200 * dpr g)\<rfloor>
   \<and> ch (resize 1200 900 (resize 800 600 g)) = \<lfloor>fl (900 * dpr g)\<rfloor>
   \<and> (w * dpr g = of_int k \<and> \<bar>k\<bar> < 2 ^ 53 \<longrightarrow> cw (resize w h g) = k)
   \<and> (h * dpr g = of_int l \<and> \<bar>l\<bar> < 2 ^ 53 \<longrightarrow> ch (resize w h g) = l)
   \<and> w * dpr g - (pow2 (- 53) * \<bar>w * dpr g\<bar> + pow2 (- 1075)) - 1
        < real_of_int (cw (resize w h g))
   \<and> real_of_int (cw (resize w h g))
        \<le> w * dpr g + (pow2 (- 53) * \<bar>w * dpr g\<bar> + pow2 (- 1075))
   \<and> h * dpr g - (pow2 (- 53) * \<bar>h * dpr g\<bar> + pow2 (- 1075)) - 1
        < real_of_int (ch (resize w h g))
   \<and> real_of_int (ch (resize w h g))
        \<le> h * dpr g + (pow2 (- 53) * \<bar>h * dpr g\<bar> + pow2 (- 1075))"
proof -
  have a: "w * dpr g = of_int k \<and> \<bar>k\<bar> < 2 ^ 53 \<longrightarrow> cw (resize w h g) = k"
    by (simp add: resize_fields floor_fl_of_int)
  have b: "h * dpr g = of_int l \<and> \<bar>l\<bar> < 2 ^ 53 \<longrightarrow> ch (resize w h g) = l"
    by (simp add: resize_fields floor_fl_of_int)
  show ?thesis
    using a b floor_fl_bounds [of "w * dpr g"] floor_fl_bounds [of "h * dpr g"]
    by (simp add: resize_fields run_dpr startup_fields dpr_of_clamp)
qed

theorem resize_keeps_stars_witness:
  "1200 * dpr (startup (Some 1.5) 800 600 rnd_half 0) = of_int 1800
   \<and> \<bar>1800 :: int\<bar> < 2 ^ 53
   \<and> cw (resize 1200 900 (startup (Some 1.5) 800 600 rnd_half 0)) = 1800
   \<and> 900 * dpr (startup (Some 1.5) 800 600 rnd_half 0) = of_int 1350
   \<and> \<bar>1350 :: int\<bar> < 2 ^ 53
   \<and> ch (resize 1200 900 (startup (Some 1.5) 800 600 rnd_half 0)) = 1350
   \<and> stars (resize 1200 900 (startup (Some 1.5) 800 600 rnd_half 0))
       = stars (startup (Some 1.5) 800 600 rnd_half 0)"
proof -
  have f: "fl 1.5 = 1.5"
    by (rule fl_eval' [where e = 0]) (simp_all add: pow2_def round_even_def Let_def)
  have d: "dpr (startup (Some 1.5) 800 600 rnd_half 0) = 1.5"
    unfolding startup_fields dpr_of_clamp f by simp
  have p: "1200 * dpr (startup (Some 1.5) 800 600 rnd_half 0) = of_int 1800 \<and> \<bar>1800 :: int\<bar> < 2 ^ 53"
    unfolding d by simp
  have q: "900 * dpr (startup (Some 1.5) 800 600 rnd_half 0) = of_int 1350 \<and> \<bar>1350 :: int\<bar> < 2 ^ 53"
    unfolding d by simp
  show ?thesis
    using p q
      resize_keeps_stars [where w = 1200 and h = 900 and k = 1800 and l = 1350
        and g = "startup (Some 1.5) 800 600 rnd_half 0"]
    by blast
qed

text \<open>
  C8, as the code has it. For every star, every \<open>dt\<close> and every \<open>N\<close>, the phase after
  \<open>N\<close> steps with \<open>dt\<close> and the phase after a single step with a delta \<open>D\<close> (for \<open>N * dt\<close>)
  agree up to the rounding of the binary64 sums, not exactly: they differ by at most
  \<open>rounding_bound\<close> of the increments the code adds, \<open>fl (dt * 4)\<close> and \<open>fl (D * 4)\<close>. When
  no wrap event occurs in the \<open>N\<close> steps nor in the single one, \<open>x\<close> and \<open>y\<close> agree up to
  the same bound for their own increments; beyond that, positions differ only
  through wrap events. For \<open>D\<close> the binary64 product \<^verbatim>\<open>N * dt\<close>, the first term of the
  bound for the phase is at most \<open>increment_gap N dt\<close>.
\<close>

theorem phase_linearity_up_to_rounding:
  "\<bar>star_t ((advance_star64 dt W H ^^ N) s) - star_t (advance_star64 D W H s)\<bar>
     \<le> rounding_bound N (star_t s) (fl (dt * 4)) (fl (D * 4))
   \<and> (\<not> wraps64_within N dt W H s \<and> \<not> wraps64 D H s \<longrightarrow>
        \<bar>star_x ((advance_star64 dt W H ^^ N) s) - star_x (advance_star64 D W H s)\<bar>
          \<le> rounding_bound N (star_x s) (- fl (fl (star_spd s * dt) * fl 0.6))
               (- fl (fl (star_spd s * D) * fl 0.6))
        \<and> \<bar>star_y ((advance_star64 dt W H ^^ N) s) - star_y (advance_star64 D W H s)\<bar>
          \<le> rounding_bound N (star_y s) (fl (fl (star_spd s * dt) * fl 0.4))
               (fl (fl (star_spd s * D) * fl 0.4)))
   \<and> \<bar>real N * fl (dt * 4) - fl (fl (real N * dt) * 4)\<bar> \<le> increment_gap N dt"
proof (intro conjI impI)
  show "\<bar>star_t ((advance_star64 dt W H ^^ N) s) - star_t (advance_star64 D W H s)\<bar>
     \<le> rounding_bound N (star_t s) (fl (dt * 4)) (fl (D * 4))"
    unfolding funpow_advance_star64_t advance_star64_t rounding_bound_def
    by (rule acc_compare)
next
  show "\<bar>real N * fl (dt * 4) - fl (fl (real N * dt) * 4)\<bar> \<le> increment_gap N dt"
    by (rule increment_gap_bound)
next
  assume h: "\<not> wraps64_within N dt W H s \<and> \<not> wraps64 D H s"
  have big: "advance_star64 D W H s = drift64 D s"
    using h by (simp add: advance_star64_no_wrap)
  have xy: "star_x ((advance_star64 dt W H ^^ N) s)
       = ((\<lambda>v. fl (v + (- fl (fl (star_spd s * dt) * fl 0.6)))) ^^ N) (star_x s)"
    "star_y ((advance_star64 dt W H ^^ N) s)
       = ((\<lambda>v. fl (v + fl (fl (star_spd s * dt) * fl 0.4))) ^^ N) (star_y s)"
    using funpow_advance_star64_xy [of N dt W H s] h by simp_all
  have bx: "star_x (drift64 D s) = fl (star_x s + (- fl (fl (star_spd s * D) * fl 0.6)))"
    by (simp add: drift64_sel)
  show "\<bar>star_x ((advance_star64 dt W H ^^ N) s) - star_x (advance_star64 D W H s)\<bar>
          \<le> rounding_bound N (star_x s) (- fl (fl (star_spd s * dt) * fl 0.6))
               (- fl (fl (star_spd s * D) * fl 0.6))"
    unfolding big xy bx rounding_bound_def by (rule acc_compare)
  show "\<bar>star_y ((advance_star64 dt W H ^^ N) s) - star_y (advance_star64 D W H s)\<bar>
          \<le> rounding_bound N (star_y s) (fl (fl (star_spd s * dt) * fl 0.4))
               (fl (fl (star_spd s * D) * fl 0.4))"
    unfolding big xy drift64_sel rounding_bound_def by (rule acc_compare)
qed

theorem phase_linearity_up_to_rounding_witness:
  "\<not> wraps64_within 2 d0_02 800 600 mid_star \<and> \<not> wraps64 (2 * d0_02) 600 mid_star
   \<and> \<bar>star_t ((advance_star64 d0_02 800 600 ^^ 2) mid_star)
        - star_t (advance_star64 (2 * d0_02) 800 600 mid_star)\<bar>
       \<le> rounding_bound 2 (star_t mid_star) (fl (d0_02 * 4)) (fl (2 * d0_02 * 4))
   \<and> \<bar>star_x ((advance_star64 d0_02 800 600 ^^ 2) mid_star)
        - star_x (advance_star64 (2 * d0_02) 800 600 mid_star)\<bar>
       \<le> rounding_bound 2 (star_x mid_star) (- fl (fl (star_spd mid_star * d0_02) * fl 0.6))
            (- fl (fl (star_spd mid_star * (2 * d0_02)) * fl 0.6))
   \<and> \<bar>star_y ((advance_star64 d0_02 800 600 ^^ 2) mid_star)
        - star_y (advance_star64 (2 * d0_02) 800 600 mid_star)\<bar>
       \<le> rounding_bound 2 (star_y mid_star) (fl (fl (star_spd mid_star * d0_02) * fl 0.4))
            (fl (fl (star_spd mid_star * (2 * d0_02)) * fl 0.4))"
proof -
  have c6: "fl 0.6 = 5404319552844595 / 2 ^ 53"
    by (rule fl_eval' [where e = "- 1"]) (simp_all add: pow2_def round_even_def Let_def)
  have c4: "fl 0.4 = 3602879701896397 / 2 ^ 53"
    by (rule fl_eval' [where e = "- 2"]) (simp_all add: pow2_def round_even_def Let_def)
  have f610: "fl (600 + 10) = 610"
    using fl_of_int [of 610] by simp
  have v_s1p: "fl (20 * d0_02) = 3602879701896397 / 2 ^ 53"
    by (rule fl_eval' [where e = "- 2"])
      (simp_all add: pow2_def round_even_def Let_def d0_02_def)
  have v_s1bx: "fl ((3602879701896397 / 2 ^ 53) * (5404319552844595 / 2 ^ 53)) = 1080863910568919 / 2 ^ 52"
    by (rule fl_eval' [where e = "- 3"])
      (simp_all add: pow2_def round_even_def Let_def d0_02_def)
  have v_s1x: "fl (400 - (1080863910568919 / 2 ^ 52)) = 1758163073278935 / 2 ^ 42"
    by (rule fl_eval' [where e = "8"])
      (simp_all add: pow2_def round_even_def Let_def d0_02_def)
  have v_s1by: "fl ((3602879701896397 / 2 ^ 53) * (3602879701896397 / 2 ^ 53)) = 1441151880758559 / 2 ^ 53"
    by (rule fl_eval' [where e = "- 3"])
      (simp_all add: pow2_def round_even_def Let_def d0_02_def)
  have v_s1y: "fl (300 + (1441151880758559 / 2 ^ 53)) = 5280470563091907 / 2 ^ 44"
    by (rule fl_eval' [where e = "8"])
      (simp_all add: pow2_def round_even_def Let_def d0_02_def)
  have v_s2x: "fl ((1758163073278935 / 2 ^ 42) - (1080863910568919 / 2 ^ 52)) = 878553771058135 / 2 ^ 41"
    by (rule fl_eval' [where e = "8"])
      (simp_all add: pow2_def round_even_def Let_def d0_02_def)
  have v_s2y: "fl ((5280470563091907 / 2 ^ 44) + (1441151880758559 / 2 ^ 53)) = 2641642656429507 / 2 ^ 43"
    by (rule fl_eval' [where e = "8"])
      (simp_all add: pow2_def round_even_def Let_def d0_02_def)
  have v_bp: "fl (20 * (2 * d0_02)) = 3602879701896397 / 2 ^ 52"
    by (rule fl_eval' [where e = "- 1"])
      (simp_all add: pow2_def round_even_def Let_def d0_02_def)
  have v_bbx: "fl ((3602879701896397 / 2 ^ 52) * (5404319552844595 / 2 ^ 53)) = 1080863910568919 / 2 ^ 51"
    by (rule fl_eval' [where e = "- 2"])
      (simp_all add: pow2_def round_even_def Let_def d0_02_def)
  have v_bx: "fl (400 - (1080863910568919 / 2 ^ 51)) = 878553771058135 / 2 ^ 41"
    by (rule fl_eval' [where e = "8"])
      (simp_all add: pow2_def round_even_def Let_def d0_02_def)
  have v_bby: "fl ((3602879701896397 / 2 ^ 52) * (3602879701896397 / 2 ^ 53)) = 1441151880758559 / 2 ^ 52"
    by (rule fl_eval' [where e = "- 2"])
      (simp_all add: pow2_def round_even_def Let_def d0_02_def)
  have v_by: "fl (300 + (1441151880758559 / 2 ^ 52)) = 5283285312859013 / 2 ^ 44"
    by (rule fl_eval' [where e = "8"])
      (simp_all add: pow2_def round_even_def Let_def d0_02_def)
  have w1: "\<not> wraps64 d0_02 600 mid_star"
    unfolding wraps64_def drift64_sel mid_star_sel c6 c4 f610 v_s1p v_s1bx v_s1x v_s1by v_s1y by simp
  have s1: "advance_star64 d0_02 800 600 mid_star = drift64 d0_02 mid_star"
    by (rule advance_star64_no_wrap [OF w1])
  have w2: "\<not> wraps64 d0_02 600 (drift64 d0_02 mid_star)"
    unfolding wraps64_def drift64_sel mid_star_sel c6 c4 f610 v_s1p v_s1bx v_s1x v_s1by v_s1y v_s2x v_s2y
    by simp
  have a: "\<not> wraps64_within 2 d0_02 800 600 mid_star"
    unfolding wraps64_within_two s1 using w1 w2 by simp
  have b: "\<not> wraps64 (2 * d0_02) 600 mid_star"
    unfolding wraps64_def drift64_sel mid_star_sel c6 c4 f610 v_bp v_bbx v_bx v_bby v_by by simp
  show ?thesis
    using a b
      phase_linearity_up_to_rounding [where N = 2 and dt = d0_02 and D = "2 * d0_02" and W = 800
        and H = 600 and s = mid_star]
    by blast
qed

text \<open>
  The phases are not exactly the same: from phase 1, two frames of 20 ms leave
  1.1600000000000001 and one frame of 40 ms leaves 1.16, binary64 numbers one unit
  in the last place apart.
\<close>

theorem phase_linearity_not_exact:
  "star_t ((advance_star64 d0_02 800 600 ^^ 2) mid_star) = 5224175567749776 / 2 ^ 52
   \<and> star_t (advance_star64 (2 * d0_02) 800 600 mid_star) = 5224175567749775 / 2 ^ 52
   \<and> star_t ((advance_star64 d0_02 800 600 ^^ 2) mid_star)
       \<noteq> star_t (advance_star64 (2 * d0_02) 800 600 mid_star)"
proof -
  have v_s1a: "fl (d0_02 * 4) = 5764607523034235 / 2 ^ 56"
    by (rule fl_eval' [where e = "- 4"])
      (simp_all add: pow2_def round_even_def Let_def d0_02_def)
  have v_s1t: "fl (1 + (5764607523034235 / 2 ^ 56)) = 607985949695017 / 2 ^ 49"
    by (rule fl_eval' [where e = "0"])
      (simp_all add: pow2_def round_even_def Let_def d0_02_def)
  have v_s2t: "fl ((607985949695017 / 2 ^ 49) + (5764607523034235 / 2 ^ 56)) = 326510972984361 / 2 ^ 48"
    by (rule fl_eval' [where e = "0"])
      (simp_all add: pow2_def round_even_def Let_def d0_02_def)
  have v_ba: "fl ((2 * d0_02) * 4) = 5764607523034235 / 2 ^ 55"
    by (rule fl_eval' [where e = "- 3"])
      (simp_all add: pow2_def round_even_def Let_def d0_02_def)
  have v_bt: "fl (1 + (5764607523034235 / 2 ^ 55)) = 5224175567749775 / 2 ^ 52"
    by (rule fl_eval' [where e = "0"])
      (simp_all add: pow2_def round_even_def Let_def d0_02_def)
  have n: "star_t ((advance_star64 d0_02 800 600 ^^ 2) mid_star) = 326510972984361 / 2 ^ 48"
    unfolding funpow_two advance_star64_t mid_star_sel v_s1a v_s1t v_s2t ..
  have b: "star_t (advance_star64 (2 * d0_02) 800 600 mid_star) = 5224175567749775 / 2 ^ 52"
    unfolding advance_star64_t mid_star_sel v_ba v_bt ..
  show ?thesis unfolding n b by simp
qed

text \<open>
  C9. With \<open>dt = 0\<close> the simulation step leaves every star whose position lies within
  the expanded bounding box as it was: position and phase are unchanged.
\<close>

theorem zero_dt_identity:
  assumes "\<forall>s\<in>set ss. in_box W H s"
  shows "advance 0 W H ss = ss"
  using assms by (simp add: advance_def advance_star_zero map_idI)

theorem zero_dt_identity_witness:
  "list_all (in_box 800 600) two_stars \<and> advance 0 800 600 two_stars = two_stars"
proof -
  have a: "\<forall>s\<in>set two_stars. in_box 800 600 s"
    by (simp add: two_stars_def in_box_def)
  show ?thesis
    unfolding list_all_iff using a zero_dt_identity [OF a] by simp
qed

text \<open>
  C10. A simulation step changes only \<open>x\<close>, \<open>y\<close> and the phase of each star: the radii,
  speeds, tints and twinkle amplitudes of the pool, in order, are the same after the
  step, and after any sequence of frames and resizes; and the pool built at startup
  has 80 + 60 + 40 = 180 stars after any such sequence.
\<close>

theorem step_frame:
  "map star_r (advance dt W H ss) = map star_r ss
   \<and> map star_spd (advance dt W H ss) = map star_spd ss
   \<and> map star_hue (advance dt W H ss) = map star_hue ss
   \<and> map star_tw (advance dt W H ss) = map star_tw ss
   \<and> length (advance dt W H ss) = length ss
   \<and> map star_r (stars (run evs g)) = map star_r (stars g)
   \<and> map star_spd (stars (run evs g)) = map star_spd (stars g)
   \<and> map star_hue (stars (run evs g)) = map star_hue (stars g)
   \<and> map star_tw (stars (run evs g)) = map star_tw (stars g)
   \<and> length (stars (run evs g)) = length (stars g)
   \<and> sum_list (map layer_count layers) = 180
   \<and> length (stars (run evs (startup d w h rnd n))) = 180"
  by (simp add: advance_fixed run_fixed startup_fields length_pool layers_total)

end
